theory Spec2Isabelle
  imports Main "HOL-Library.Word"
begin

section \<open>The operating system seen by services/listen\_dnsport.c\<close>

text \<open>
  The listener talks to the kernel through \<^verbatim>\<open>getaddrinfo\<close>, \<^verbatim>\<open>socket\<close>,
  \<^verbatim>\<open>setsockopt\<close>, \<^verbatim>\<open>bind\<close>, \<^verbatim>\<open>fd_set_nonblock\<close>, \<^verbatim>\<open>listen\<close>, \<^verbatim>\<open>close\<close> and
  \<^verbatim>\<open>malloc\<close>. The world record holds the descriptor table, the log, and for every kind of
  fallible call the outcomes the environment will give to the coming calls of that kind
  (None is success; an exhausted list means success from then on). Every behaviour of
  the environment is one choice of these lists.
\<close>

datatype family = AF_UNSPEC | AF_INET | AF_INET6

datatype socktype = SOCK_ZERO | SOCK_DGRAM | SOCK_STREAM

datatype errno = EAFNOSUPPORT | EPROTONOSUPPORT | EINVAL | EADDRINUSE
  | EACCES | EMFILE | ENOBUFS | ENOPROTOOPT | EADDRNOTAVAIL

datatype ai_flag = AI_PASSIVE | AI_NUMERICHOST

record sockaddr =
  sa_node :: string
  sa_port :: int

record addrinfo =
  ai_flags :: "ai_flag set"
  ai_family :: family
  ai_socktype :: socktype
  ai_addr :: sockaddr

datatype sockopt = SO_REUSEADDR | IPV6_V6ONLY int | IPV6_USE_MIN_MTU
  | IPV6_RECVPKTINFO | IPV6_PKTINFO | IP_RECVDSTADDR | IP_PKTINFO

record sock =
  so_family :: family
  so_type :: socktype
  so_opts :: "sockopt list"
  so_bound :: "sockaddr option"
  so_nonblock :: bool
  so_backlog :: "nat option"

datatype log_entry =
    Err_create_socket errno
  | Err_setsockopt sockopt errno
  | Err_bind errno
  | Err_listen errno
  | Err_getaddrinfo string int
  | Err_bind_inuse
  | Err_no_pktinfo6
  | Err_no_pktinfo4
  | Warn_no_ip6
  | Warn_if_automatic
  | Verbose_creating socktype family sockaddr

fun is_warning :: "log_entry \<Rightarrow> bool" where
  "is_warning Warn_no_ip6 = True"
| "is_warning Warn_if_automatic = True"
| "is_warning _ = False"

datatype syscall = K_getaddrinfo | K_socket | K_setsockopt | K_bind
  | K_nonblock | K_listen | K_malloc

record world =
  fds :: "int \<rightharpoonup> sock"
  next_fd :: int
  script :: "syscall \<Rightarrow> errno option list"
  logs :: "log_entry list"

text \<open>
  The build: which of the preprocessor symbols of the file are defined, the global
  \<^verbatim>\<open>verbosity\<close>, and \<^verbatim>\<open>str_is_ip6\<close> of util/net\_help.c. The embedding follows the
  branches taken when \<^verbatim>\<open>USE_WINSOCK\<close> is undefined and \<^verbatim>\<open>EADDRINUSE\<close> is defined.
\<close>

record platform =
  have_INET6 :: bool
  have_IPV6_V6ONLY :: bool
  have_IPV6_USE_MIN_MTU :: bool
  have_SO_REUSEADDR :: bool
  have_IPV6_RECVPKTINFO :: bool
  have_IPV6_PKTINFO :: bool
  have_IP_RECVDSTADDR :: bool
  have_IP_PKTINFO :: bool
  verbosity_algo :: bool
  str_is_ip6 :: "string \<Rightarrow> bool"

definition next_outcome :: "syscall \<Rightarrow> world \<Rightarrow> errno option \<times> world" where
  "next_outcome k w =
     (case script w k of
        [] \<Rightarrow> (None, w)
      | r # rs \<Rightarrow> (r, w\<lparr>script := (script w)(k := rs)\<rparr>))"

definition log :: "log_entry \<Rightarrow> world \<Rightarrow> world" where
  "log m w = w\<lparr>logs := logs w @ [m]\<rparr>"

definition sys_getaddrinfo :: "string \<Rightarrow> int \<Rightarrow> addrinfo \<Rightarrow> world \<Rightarrow> addrinfo option \<times> world" where
  "sys_getaddrinfo node service hints w =
     (case next_outcome K_getaddrinfo w of
        (Some e, w1) \<Rightarrow> (None, w1)
      | (None, w1) \<Rightarrow>
          (Some \<lparr>ai_flags = ai_flags hints, ai_family = ai_family hints,
                 ai_socktype = ai_socktype hints,
                 ai_addr = \<lparr>sa_node = node, sa_port = service\<rparr>\<rparr>, w1))"

definition sys_socket :: "family \<Rightarrow> socktype \<Rightarrow> world \<Rightarrow> (errno + int) \<times> world" where
  "sys_socket fam st w =
     (case next_outcome K_socket w of
        (Some e, w1) \<Rightarrow> (Inl e, w1)
      | (None, w1) \<Rightarrow>
          (Inr (next_fd w1),
           w1\<lparr>fds := (fds w1)(next_fd w1 \<mapsto>
                  \<lparr>so_family = fam, so_type = st, so_opts = [], so_bound = None,
                   so_nonblock = False, so_backlog = None\<rparr>),
              next_fd := next_fd w1 + 1\<rparr>))"

definition upd_sock :: "int \<Rightarrow> (sock \<Rightarrow> sock) \<Rightarrow> world \<Rightarrow> world" where
  "upd_sock s f w =
     (case fds w s of None \<Rightarrow> w | Some so \<Rightarrow> w\<lparr>fds := (fds w)(s \<mapsto> f so)\<rparr>)"

definition sys_setsockopt :: "int \<Rightarrow> sockopt \<Rightarrow> world \<Rightarrow> errno option \<times> world" where
  "sys_setsockopt s opt w =
     (case next_outcome K_setsockopt w of
        (Some e, w1) \<Rightarrow> (Some e, w1)
      | (None, w1) \<Rightarrow> (None, upd_sock s (\<lambda>so. so\<lparr>so_opts := so_opts so @ [opt]\<rparr>) w1))"

definition sys_bind :: "int \<Rightarrow> sockaddr \<Rightarrow> world \<Rightarrow> errno option \<times> world" where
  "sys_bind s addr w =
     (case next_outcome K_bind w of
        (Some e, w1) \<Rightarrow> (Some e, w1)
      | (None, w1) \<Rightarrow> (None, upd_sock s (\<lambda>so. so\<lparr>so_bound := Some addr\<rparr>) w1))"

definition fd_set_nonblock :: "int \<Rightarrow> world \<Rightarrow> bool \<times> world" where
  "fd_set_nonblock s w =
     (case next_outcome K_nonblock w of
        (Some e, w1) \<Rightarrow> (False, w1)
      | (None, w1) \<Rightarrow> (True, upd_sock s (\<lambda>so. so\<lparr>so_nonblock := True\<rparr>) w1))"

definition sys_listen :: "int \<Rightarrow> nat \<Rightarrow> world \<Rightarrow> errno option \<times> world" where
  "sys_listen s backlog w =
     (case next_outcome K_listen w of
        (Some e, w1) \<Rightarrow> (Some e, w1)
      | (None, w1) \<Rightarrow> (None, upd_sock s (\<lambda>so. so\<lparr>so_backlog := Some backlog\<rparr>) w1))"

text \<open>
  \<^verbatim>\<open>close\<close> removes the descriptor from the table; the source never looks at its result.
  \<^verbatim>\<open>fd_set_nonblock\<close> (util/net\_help.c) is taken as a call that can fail, \<^verbatim>\<open>malloc\<close>
  as well.
\<close>

definition sys_close :: "int \<Rightarrow> world \<Rightarrow> world" where
  "sys_close s w = w\<lparr>fds := (fds w)(s := None)\<rparr>"

definition sys_malloc :: "world \<Rightarrow> bool \<times> world" where
  "sys_malloc w =
     (case next_outcome K_malloc w of
        (Some e, w1) \<Rightarrow> (False, w1)
      | (None, w1) \<Rightarrow> (True, w1))"

section \<open>services/listen\_dnsport.c\<close>

datatype listen_type = listen_type_udp | listen_type_tcp | listen_type_udpancil

record listen_port =
  fd :: int
  ftype :: listen_type

text \<open>
  The fields of \<^verbatim>\<open>struct config_file\<close> (util/config\_file.h) that the file reads. The
  array \<^verbatim>\<open>ifs\<close> and its length \<^verbatim>\<open>num_ifs\<close> are one list.
\<close>

record config_file =
  port :: int
  do_ip4 :: bool
  do_ip6 :: bool
  do_tcp :: bool
  do_udp :: bool
  if_automatic :: bool
  incoming_num_tcp :: nat
  ifs :: "string list"

definition TCP_BACKLOG :: nat where
  "TCP_BACKLOG = 5"

definition verbose_print_addr :: "platform \<Rightarrow> addrinfo \<Rightarrow> world \<Rightarrow> world" where
  "verbose_print_addr plat addr w =
     (if verbosity_algo plat
      then log (Verbose_creating (ai_socktype addr) (ai_family addr) (ai_addr addr)) w
      else w)"

text \<open>
  \<^verbatim>\<open>create_udp_sock\<close> returns the descriptor, or -1 with the out-parameters
  \<^verbatim>\<open>*inuse\<close> and \<^verbatim>\<open>*noproto\<close> written: here \<open>Inr s\<close>, or \<open>Inl (inuse, noproto)\<close>.
\<close>

definition create_udp_sock ::
  "platform \<Rightarrow> family \<Rightarrow> socktype \<Rightarrow> sockaddr \<Rightarrow> int \<Rightarrow> world \<Rightarrow> ((bool \<times> bool) + int) \<times> world" where
  "create_udp_sock plat fam st addr v6only w =
     (case sys_socket fam st w of
        (Inl e, w1) \<Rightarrow>
          if e = EAFNOSUPPORT \<or> e = EPROTONOSUPPORT then (Inl (False, True), w1)
          else (Inl (False, False), log (Err_create_socket e) w1)
      | (Inr s, w1) \<Rightarrow>
     (case (if fam = AF_INET6 \<and> have_IPV6_V6ONLY plat \<and> v6only \<noteq> 0
            then sys_setsockopt s (IPV6_V6ONLY (if v6only = 2 then 0 else 1)) w1
            else (None, w1)) of
        (Some e, w2) \<Rightarrow>
          (Inl (False, False),
           sys_close s (log (Err_setsockopt (IPV6_V6ONLY (if v6only = 2 then 0 else 1)) e) w2))
      | (None, w2) \<Rightarrow>
     (case (if fam = AF_INET6 \<and> have_IPV6_USE_MIN_MTU plat
            then sys_setsockopt s IPV6_USE_MIN_MTU w2
            else (None, w2)) of
        (Some e, w3) \<Rightarrow>
          (Inl (False, False), sys_close s (log (Err_setsockopt IPV6_USE_MIN_MTU e) w3))
      | (None, w3) \<Rightarrow>
     (case sys_bind s addr w3 of
        (Some e, w4) \<Rightarrow>
          (Inl (e = EADDRINUSE, fam = AF_INET6 \<and> e = EINVAL),
           sys_close s
             (if fam = AF_INET6 \<and> e = EINVAL then w4
              else if e \<noteq> EADDRINUSE then log (Err_bind e) w4
              else w4))
      | (None, w4) \<Rightarrow>
     (case fd_set_nonblock s w4 of
        (False, w5) \<Rightarrow> (Inl (False, False), sys_close s w5)
      | (True, w5) \<Rightarrow> (Inr s, w5))))))"

text \<open>
  \<^verbatim>\<open>create_tcp_accept_sock\<close>: \<open>Inr s\<close>, or \<open>Inl noproto\<close> for -1. After \<^verbatim>\<open>socket\<close>
  has succeeded no failure branch of the source calls \<^verbatim>\<open>close\<close>.
\<close>

definition create_tcp_accept_sock ::
  "platform \<Rightarrow> addrinfo \<Rightarrow> int \<Rightarrow> world \<Rightarrow> (bool + int) \<times> world" where
  "create_tcp_accept_sock plat addr v6only w =
     (case sys_socket (ai_family addr) (ai_socktype addr) (verbose_print_addr plat addr w) of
        (Inl e, w1) \<Rightarrow>
          if e = EAFNOSUPPORT \<or> e = EPROTONOSUPPORT then (Inl True, w1)
          else (Inl False, log (Err_create_socket e) w1)
      | (Inr s, w1) \<Rightarrow>
     (case (if have_SO_REUSEADDR plat then sys_setsockopt s SO_REUSEADDR w1
            else (None, w1)) of
        (Some e, w2) \<Rightarrow> (Inl False, log (Err_setsockopt SO_REUSEADDR e) w2)
      | (None, w2) \<Rightarrow>
     (case (if have_IPV6_V6ONLY plat \<and> ai_family addr = AF_INET6 \<and> v6only \<noteq> 0
            then sys_setsockopt s (IPV6_V6ONLY 1) w2
            else (None, w2)) of
        (Some e, w3) \<Rightarrow> (Inl False, log (Err_setsockopt (IPV6_V6ONLY 1) e) w3)
      | (None, w3) \<Rightarrow>
     (case sys_bind s (ai_addr addr) w3 of
        (Some e, w4) \<Rightarrow>
          if ai_family addr = AF_INET6 \<and> e = EINVAL then (Inl True, w4)
          else (Inl False, log (Err_bind e) w4)
      | (None, w4) \<Rightarrow>
     (case fd_set_nonblock s w4 of
        (False, w5) \<Rightarrow> (Inl False, w5)
      | (True, w5) \<Rightarrow>
     (case sys_listen s TCP_BACKLOG w5 of
        (Some e, w6) \<Rightarrow> (Inl False, log (Err_listen e) w6)
      | (None, w6) \<Rightarrow> (Inr s, w6)))))))"

text \<open>
  \<^verbatim>\<open>make_sock\<close>: \<open>Inr s\<close>, or \<open>Inl noip6\<close> for -1. The source stores the socket type
  in \<^verbatim>\<open>hints->ai_socktype\<close> before every \<^verbatim>\<open>getaddrinfo\<close>, so the stored value is never
  read by a later call and the caller's hints are not returned. The port travels as a
  number: the source prints it into \<^verbatim>\<open>portbuf\<close> and \<^verbatim>\<open>getaddrinfo\<close> reads it back.
  \<^verbatim>\<open>freeaddrinfo\<close> has no effect on the world.
\<close>

definition make_sock ::
  "platform \<Rightarrow> socktype \<Rightarrow> string \<Rightarrow> int \<Rightarrow> addrinfo \<Rightarrow> int \<Rightarrow> world \<Rightarrow> (bool + int) \<times> world" where
  "make_sock plat stype ifname prt hints v6only w =
     (case sys_getaddrinfo ifname prt (hints\<lparr>ai_socktype := stype\<rparr>) w of
        (None, w1) \<Rightarrow> (Inl False, log (Err_getaddrinfo ifname prt) w1)
      | (Some res, w1) \<Rightarrow>
          if stype = SOCK_DGRAM then
            (case create_udp_sock plat (ai_family res) (ai_socktype res) (ai_addr res) v6only
                    (verbose_print_addr plat res w1) of
               (Inl (inuse, noproto), w2) \<Rightarrow>
                 if inuse then (Inl False, log Err_bind_inuse w2)
                 else (Inl (noproto \<and> ai_family hints = AF_INET6), w2)
             | (Inr s, w2) \<Rightarrow> (Inr s, w2))
          else
            (case create_tcp_accept_sock plat res v6only w1 of
               (Inl noproto, w2) \<Rightarrow> (Inl (noproto \<and> ai_family hints = AF_INET6), w2)
             | (Inr s, w2) \<Rightarrow> (Inr s, w2)))"

definition port_insert ::
  "listen_port list \<Rightarrow> int \<Rightarrow> listen_type \<Rightarrow> world \<Rightarrow> bool \<times> listen_port list \<times> world" where
  "port_insert list s ft w =
     (case sys_malloc w of
        (False, w1) \<Rightarrow> (False, list, w1)
      | (True, w1) \<Rightarrow> (True, \<lparr>fd = s, ftype = ft\<rparr> # list, w1))"

definition set_recvpktinfo :: "platform \<Rightarrow> int \<Rightarrow> family \<Rightarrow> world \<Rightarrow> bool \<times> world" where
  "set_recvpktinfo plat s fam w =
     (if fam = AF_INET6 then
        (if have_IPV6_RECVPKTINFO plat then
           (case sys_setsockopt s IPV6_RECVPKTINFO w of
              (Some e, w1) \<Rightarrow> (False, log (Err_setsockopt IPV6_RECVPKTINFO e) w1)
            | (None, w1) \<Rightarrow> (True, w1))
         else if have_IPV6_PKTINFO plat then
           (case sys_setsockopt s IPV6_PKTINFO w of
              (Some e, w1) \<Rightarrow> (False, log (Err_setsockopt IPV6_PKTINFO e) w1)
            | (None, w1) \<Rightarrow> (True, w1))
         else (False, log Err_no_pktinfo6 w))
      else if fam = AF_INET then
        (if have_IP_RECVDSTADDR plat then
           (case sys_setsockopt s IP_RECVDSTADDR w of
              (Some e, w1) \<Rightarrow> (False, log (Err_setsockopt IP_RECVDSTADDR e) w1)
            | (None, w1) \<Rightarrow> (True, w1))
         else if have_IP_PKTINFO plat then
           (case sys_setsockopt s IP_PKTINFO w of
              (Some e, w1) \<Rightarrow> (False, log (Err_setsockopt IP_PKTINFO e) w1)
            | (None, w1) \<Rightarrow> (True, w1))
         else (False, log Err_no_pktinfo4 w))
      else (True, w))"

text \<open>The \<^verbatim>\<open>if(do_tcp)\<close> block that ends \<^verbatim>\<open>ports_create_if\<close>.\<close>

definition ports_create_if_tcp ::
  "platform \<Rightarrow> string \<Rightarrow> bool \<Rightarrow> addrinfo \<Rightarrow> int \<Rightarrow> listen_port list \<Rightarrow> world
     \<Rightarrow> bool \<times> listen_port list \<times> world" where
  "ports_create_if_tcp plat ifname dtcp hints prt list w =
     (if dtcp then
        (case make_sock plat SOCK_STREAM ifname prt hints 1 w of
           (Inl noip6, w1) \<Rightarrow> if noip6 then (True, list, w1) else (False, list, w1)
         | (Inr s, w1) \<Rightarrow>
             (case port_insert list s listen_type_tcp w1 of
                (False, list2, w2) \<Rightarrow> (False, list2, sys_close s w2)
              | (True, list2, w2) \<Rightarrow> (True, list2, w2)))
      else (True, list, w))"

definition ports_create_if ::
  "platform \<Rightarrow> string \<Rightarrow> bool \<Rightarrow> bool \<Rightarrow> bool \<Rightarrow> addrinfo \<Rightarrow> int \<Rightarrow> listen_port list \<Rightarrow> world
     \<Rightarrow> bool \<times> listen_port list \<times> world" where
  "ports_create_if plat ifname dauto dudp dtcp hints prt list w =
     (if \<not> dudp \<and> \<not> dtcp then (False, list, w)
      else if dauto then
        (case make_sock plat SOCK_DGRAM ifname prt hints 1 w of
           (Inl noip6, w1) \<Rightarrow>
             if noip6 then (True, list, log Warn_no_ip6 w1) else (False, list, w1)
         | (Inr s, w1) \<Rightarrow>
             (case set_recvpktinfo plat s (ai_family hints) w1 of
                (False, w2) \<Rightarrow> (False, list, w2)
              | (True, w2) \<Rightarrow>
                  (case port_insert list s listen_type_udpancil w2 of
                     (False, list3, w3) \<Rightarrow> (False, list3, sys_close s w3)
                   | (True, list3, w3) \<Rightarrow>
                       ports_create_if_tcp plat ifname dtcp hints prt list3 w3)))
      else if dudp then
        (case make_sock plat SOCK_DGRAM ifname prt hints 1 w of
           (Inl noip6, w1) \<Rightarrow>
             if noip6 then (True, list, log Warn_no_ip6 w1) else (False, list, w1)
         | (Inr s, w1) \<Rightarrow>
             (case port_insert list s listen_type_udp w1 of
                (False, list2, w2) \<Rightarrow> (False, list2, sys_close s w2)
              | (True, list2, w2) \<Rightarrow>
                  ports_create_if_tcp plat ifname dtcp hints prt list2 w2))
      else ports_create_if_tcp plat ifname dtcp hints prt list w)"

definition listening_ports_free :: "listen_port list \<Rightarrow> world \<Rightarrow> world" where
  "listening_ports_free list w =
     fold (\<lambda>p w'. if fd p \<noteq> -1 then sys_close (fd p) w' else w') list w"

text \<open>
  The \<^verbatim>\<open>for\<close> loop of \<^verbatim>\<open>listening_ports_open\<close> over \<^verbatim>\<open>cfg->ifs\<close>. The result is the
  returned list pointer: the empty list is \<^verbatim>\<open>NULL\<close>.
\<close>

fun open_ifs ::
  "platform \<Rightarrow> bool \<Rightarrow> bool \<Rightarrow> bool \<Rightarrow> bool \<Rightarrow> addrinfo \<Rightarrow> int \<Rightarrow> string list
     \<Rightarrow> listen_port list \<Rightarrow> world \<Rightarrow> listen_port list \<times> world" where
  "open_ifs plat ip4 ip6 dudp dtcp hints prt [] list w = (list, w)"
| "open_ifs plat ip4 ip6 dudp dtcp hints prt (ifname # rest) list w =
     (if str_is_ip6 plat ifname then
        (if \<not> ip6 then open_ifs plat ip4 ip6 dudp dtcp hints prt rest list w
         else
           (case ports_create_if plat ifname False dudp dtcp
                   (hints\<lparr>ai_family := AF_INET6\<rparr>) prt list w of
              (False, list1, w1) \<Rightarrow> ([], listening_ports_free list1 w1)
            | (True, list1, w1) \<Rightarrow>
                open_ifs plat ip4 ip6 dudp dtcp (hints\<lparr>ai_family := AF_INET6\<rparr>) prt rest
                  list1 w1))
      else
        (if \<not> ip4 then open_ifs plat ip4 ip6 dudp dtcp hints prt rest list w
         else
           (case ports_create_if plat ifname False dudp dtcp
                   (hints\<lparr>ai_family := AF_INET\<rparr>) prt list w of
              (False, list1, w1) \<Rightarrow> ([], listening_ports_free list1 w1)
            | (True, list1, w1) \<Rightarrow>
                open_ifs plat ip4 ip6 dudp dtcp (hints\<lparr>ai_family := AF_INET\<rparr>) prt rest
                  list1 w1)))"

text \<open>
  The first branch of \<^verbatim>\<open>listening_ports_open\<close>, taken when \<^verbatim>\<open>do_auto\<close> holds or no
  interface is configured: the IPv6 address, then the IPv4 address.
\<close>

definition open_defaults ::
  "platform \<Rightarrow> bool \<Rightarrow> bool \<Rightarrow> bool \<Rightarrow> bool \<Rightarrow> bool \<Rightarrow> addrinfo \<Rightarrow> int \<Rightarrow> world
     \<Rightarrow> listen_port list \<times> world" where
  "open_defaults plat ip4 ip6 dauto dudp dtcp hints prt w0 =
     (case (if ip6
            then ports_create_if plat (if dauto then ''::0'' else ''::1'')
                   dauto dudp dtcp (hints\<lparr>ai_family := AF_INET6\<rparr>) prt [] w0
            else (True, [], w0)) of
        (False, list1, w1) \<Rightarrow> ([], listening_ports_free list1 w1)
      | (True, list1, w1) \<Rightarrow>
          (case (if ip4
                 then ports_create_if plat (if dauto then ''0.0.0.0'' else ''127.0.0.1'')
                        dauto dudp dtcp (hints\<lparr>ai_family := AF_INET\<rparr>) prt list1 w1
                 else (True, list1, w1)) of
             (False, list2, w2) \<Rightarrow> ([], listening_ports_free list2 w2)
           | (True, list2, w2) \<Rightarrow> (list2, w2)))"

definition listening_ports_open ::
  "platform \<Rightarrow> config_file \<Rightarrow> world \<Rightarrow> listen_port list \<times> world" where
  "listening_ports_open plat cfg w =
     (let ip4 = do_ip4 cfg;
          ip6 = (do_ip6 cfg \<and> have_INET6 plat);
          dtcp = (do_tcp cfg \<and> incoming_num_tcp cfg \<noteq> 0);
          dauto = (if_automatic cfg \<and> do_udp cfg);
          hints = \<lparr>ai_flags = (if ifs cfg \<noteq> [] then {AI_PASSIVE, AI_NUMERICHOST}
                                else {AI_PASSIVE}),
                   ai_family = AF_UNSPEC, ai_socktype = SOCK_ZERO,
                   ai_addr = \<lparr>sa_node = [], sa_port = 0\<rparr>\<rparr>
      in if \<not> ip4 \<and> \<not> ip6 then ([], w)
         else
           (let warn = (dauto \<and> (\<not> ip4 \<or> \<not> ip6));
                w0 = (if warn then log Warn_if_automatic w else w);
                dauto = (dauto \<and> \<not> warn)
            in if dauto \<or> ifs cfg = []
               then open_defaults plat ip4 ip6 dauto (do_udp cfg) dtcp hints (port cfg) w0
               else open_ifs plat ip4 ip6 (do_udp cfg) dtcp hints (port cfg) (ifs cfg) [] w0))"

subsection \<open>Reading the environment, the log and the descriptor table\<close>

text \<open>
  \<open>outcome k i w\<close> is the result the environment will give to the \<open>i\<close>-th coming call
  of kind \<open>k\<close> (counting from 0); \<open>skip k w\<close> is the world after one such call has
  been answered; \<open>no_failures w\<close> says that no coming call fails, and
  \<open>only_failure k n e w\<close> that exactly one does: the \<open>n\<close>-th of kind \<open>k\<close>, with error
  \<open>e\<close>. \<open>warnings w\<close> are the
  \<^verbatim>\<open>log_warn\<close> lines written so far, in order. \<open>bound_at w s\<close> is the address descriptor
  \<open>s\<close> is bound to, if it is open and bound; \<open>listening_on w list\<close> reads a list of
  ports as the addresses they are bound to, with their tags.
\<close>

definition outcome :: "syscall \<Rightarrow> nat \<Rightarrow> world \<Rightarrow> errno option" where
  "outcome k i w = (if i < length (script w k) then script w k ! i else None)"

definition skip :: "syscall \<Rightarrow> world \<Rightarrow> world" where
  "skip k w = w\<lparr>script := (script w)(k := tl (script w k))\<rparr>"

definition no_failures :: "world \<Rightarrow> bool" where
  "no_failures w = (\<forall>k i. outcome k i w = None)"

definition warnings :: "world \<Rightarrow> log_entry list" where
  "warnings w = filter is_warning (logs w)"

definition bound_at :: "world \<Rightarrow> int \<Rightarrow> sockaddr option" where
  "bound_at w s = Option.bind (fds w s) so_bound"

definition listening_on :: "world \<Rightarrow> listen_port list \<Rightarrow> (sockaddr option \<times> listen_type) list" where
  "listening_on w list = map (\<lambda>p. (bound_at w (fd p), ftype p)) list"

definition only_failure :: "syscall \<Rightarrow> nat \<Rightarrow> errno \<Rightarrow> world \<Rightarrow> bool" where
  "only_failure k n e w = (\<forall>k' i. outcome k' i w = (if k' = k \<and> i = n then Some e else None))"

definition no_ancil :: "listen_port list \<Rightarrow> bool" where
  "no_ancil list = (\<forall>p \<in> set list. ftype p \<noteq> listen_type_udpancil)"

subsection \<open>What the spec says of the listener\<close>

text \<open>
  The sockets the spec expects, in the order IPv6 before IPv4 and UDP before TCP: one
  socket per enabled transport on an address (TCP counts as enabled when
  \<^verbatim>\<open>incoming_num_tcp\<close> is not 0); the defaults \<^verbatim>\<open>::1\<close> and \<^verbatim>\<open>127.0.0.1\<close>; the wildcards
  \<^verbatim>\<open>::0\<close> and \<^verbatim>\<open>0.0.0.0\<close> with the UDP sockets tagged \<^verbatim>\<open>udpancil\<close>; the configured
  interfaces whose address family is in use, in the order of the configuration.
  \<open>have_pktinfo\<close> says that the build has one of the two socket options
  \<^verbatim>\<open>set_recvpktinfo\<close> tries for a family.
\<close>

definition one_per_transport :: "config_file \<Rightarrow> listen_type \<Rightarrow> string \<Rightarrow> (sockaddr option \<times> listen_type) list" where
  "one_per_transport cfg udp_tag a =
     (if do_udp cfg then [(Some \<lparr>sa_node = a, sa_port = port cfg\<rparr>, udp_tag)] else []) @
     (if do_tcp cfg \<and> incoming_num_tcp cfg \<noteq> 0
      then [(Some \<lparr>sa_node = a, sa_port = port cfg\<rparr>, listen_type_tcp)] else [])"

definition default_sockets :: "platform \<Rightarrow> config_file \<Rightarrow> (sockaddr option \<times> listen_type) list" where
  "default_sockets plat cfg =
     (if do_ip6 cfg \<and> have_INET6 plat then one_per_transport cfg listen_type_udp ''::1'' else []) @
     (if do_ip4 cfg then one_per_transport cfg listen_type_udp ''127.0.0.1'' else [])"


definition have_pktinfo :: "platform \<Rightarrow> family \<Rightarrow> bool" where
  "have_pktinfo plat fam =
     (if fam = AF_INET6 then have_IPV6_RECVPKTINFO plat \<or> have_IPV6_PKTINFO plat
      else if fam = AF_INET then have_IP_RECVDSTADDR plat \<or> have_IP_PKTINFO plat
      else True)"

text \<open>
  An interface's address family is in use: \<open>if_enabled\<close> with the two flags as the loop
  has them, \<open>family_enabled\<close> from the configuration and the build.
\<close>

definition if_enabled :: "platform \<Rightarrow> bool \<Rightarrow> bool \<Rightarrow> string \<Rightarrow> bool" where
  "if_enabled plat ip4 ip6 ifname = (if str_is_ip6 plat ifname then ip6 else ip4)"

definition family_enabled :: "platform \<Rightarrow> config_file \<Rightarrow> string \<Rightarrow> bool" where
  "family_enabled plat cfg ifname =
     (if str_is_ip6 plat ifname then do_ip6 cfg \<and> have_INET6 plat else do_ip4 cfg)"

definition interface_sockets :: "platform \<Rightarrow> config_file \<Rightarrow> (sockaddr option \<times> listen_type) list" where
  "interface_sockets plat cfg =
     concat (map (one_per_transport cfg listen_type_udp)
               (filter (family_enabled plat cfg) (ifs cfg)))"

text \<open>
  \<open>demotable k e\<close>: the failures that the source takes as "no IPv6 here" when the address
  is an IPv6 one, \<^verbatim>\<open>socket\<close> with \<^verbatim>\<open>EAFNOSUPPORT\<close> or \<^verbatim>\<open>EPROTONOSUPPORT\<close> and \<^verbatim>\<open>bind\<close>
  with \<^verbatim>\<open>EINVAL\<close>.
  How the next socket to be set up fails, in terms of the coming calls: \<^verbatim>\<open>socket\<close> fails
  with \<^verbatim>\<open>EAFNOSUPPORT\<close> or \<^verbatim>\<open>EPROTONOSUPPORT\<close>, or \<^verbatim>\<open>socket\<close> and the (at most two)
  \<^verbatim>\<open>setsockopt\<close> calls before \<^verbatim>\<open>bind\<close> succeed and \<^verbatim>\<open>bind\<close> fails with \<^verbatim>\<open>EINVAL\<close>; or
  \<^verbatim>\<open>socket\<close> or \<^verbatim>\<open>bind\<close> fails with any other error.
\<close>

definition ip6_unavailable :: "world \<Rightarrow> bool" where
  "ip6_unavailable w =
     (outcome K_socket 0 w = Some EAFNOSUPPORT \<or> outcome K_socket 0 w = Some EPROTONOSUPPORT \<or>
      (outcome K_socket 0 w = None \<and> outcome K_setsockopt 0 w = None \<and>
       outcome K_setsockopt 1 w = None \<and> outcome K_bind 0 w = Some EINVAL))"


definition socket_or_bind_refused :: "world \<Rightarrow> bool" where
  "socket_or_bind_refused w =
     (outcome K_socket 0 w \<notin> {None, Some EAFNOSUPPORT, Some EPROTONOSUPPORT} \<or>
      (outcome K_socket 0 w = None \<and> outcome K_setsockopt 0 w = None \<and>
       outcome K_setsockopt 1 w = None \<and> outcome K_bind 0 w \<notin> {None, Some EINVAL}))"

subsection \<open>Concrete builds, worlds and configurations\<close>

text \<open>
  A build with IPv6 and the Linux socket options, where \<^verbatim>\<open>str_is_ip6\<close> looks for a colon;
  a world with no descriptor open but the standard three and no failing call, and worlds
  where one call fails; configurations.
\<close>

definition example_platform :: platform where
  "example_platform =
     \<lparr>have_INET6 = True, have_IPV6_V6ONLY = True, have_IPV6_USE_MIN_MTU = False,
      have_SO_REUSEADDR = True, have_IPV6_RECVPKTINFO = True, have_IPV6_PKTINFO = True,
      have_IP_RECVDSTADDR = False, have_IP_PKTINFO = True, verbosity_algo = False,
      str_is_ip6 = (\<lambda>str. CHR '':'' \<in> set str)\<rparr>"


definition quiet_world :: world where
  "quiet_world = \<lparr>fds = Map.empty, next_fd = 3, script = (\<lambda>k. []), logs = []\<rparr>"

definition tcp_bind_refused_world :: world where
  "tcp_bind_refused_world = quiet_world\<lparr>script := (\<lambda>k. [])(K_bind := [Some EADDRINUSE])\<rparr>"

definition pktinfo_refused_world :: world where
  "pktinfo_refused_world =
     quiet_world\<lparr>script := (\<lambda>k. [])(K_setsockopt := [None, Some ENOPROTOOPT])\<rparr>"

definition ip6_unsupported_world :: world where
  "ip6_unsupported_world = quiet_world\<lparr>script := (\<lambda>k. [])(K_socket := [Some EAFNOSUPPORT])\<rparr>"

definition tcp_after_udp_refused_world :: world where
  "tcp_after_udp_refused_world =
     quiet_world\<lparr>script := (\<lambda>k. [])(K_bind := [None, Some EADDRINUSE])\<rparr>"

definition tcp_after_udp_unsupported_world :: world where
  "tcp_after_udp_unsupported_world =
     quiet_world\<lparr>script := (\<lambda>k. [])(K_socket := [None, Some EAFNOSUPPORT])\<rparr>"

definition third_socket_unsupported_world :: world where
  "third_socket_unsupported_world =
     quiet_world\<lparr>script := (\<lambda>k. [])(K_socket := [None, None, Some EAFNOSUPPORT])\<rparr>"

definition cfg_default :: config_file where
  "cfg_default =
     \<lparr>port = 53, do_ip4 = True, do_ip6 = True, do_tcp = True, do_udp = True,
      if_automatic = False, incoming_num_tcp = 10, ifs = []\<rparr>"


definition cfg_tcp_ip4 :: config_file where
  "cfg_tcp_ip4 = cfg_default\<lparr>do_udp := False, do_ip6 := False\<rparr>"

definition cfg_auto :: config_file where
  "cfg_auto = cfg_default\<lparr>if_automatic := True\<rparr>"

definition cfg_auto_ip4 :: config_file where
  "cfg_auto_ip4 = cfg_default\<lparr>if_automatic := True, do_ip6 := False\<rparr>"


definition cfg_auto_tcp_ip4 :: config_file where
  "cfg_auto_tcp_ip4 = cfg_default\<lparr>if_automatic := True, do_ip6 := False, do_udp := False\<rparr>"

definition cfg_ifs_ip4_only :: config_file where
  "cfg_ifs_ip4_only =
     cfg_default\<lparr>do_ip6 := False, ifs := [''::1'', ''192.0.2.1'', ''2001:db8::1'']\<rparr>"

definition cfg_ifs_none_enabled :: config_file where
  "cfg_ifs_none_enabled = cfg_default\<lparr>do_ip6 := False, ifs := [''::1'']\<rparr>"


definition cfg_auto_ip4_ifs :: config_file where
  "cfg_auto_ip4_ifs = cfg_auto_ip4\<lparr>ifs := [''::1'', ''192.0.2.1'']\<rparr>"

definition cfg_auto_ip4_none :: config_file where
  "cfg_auto_ip4_none = cfg_auto_ip4\<lparr>ifs := [''::1'']\<rparr>"

section \<open>Pausing and resuming the listener\<close>

text \<open>
  \<^verbatim>\<open>listen_pushback\<close> and \<^verbatim>\<open>listen_resume\<close> walk the list \<^verbatim>\<open>listen->cps\<close> of pointers to
  comm points. The store maps an address to the comm point it holds; the comm points of
  accepted TCP connections live in the store without being on the list. The type
  \<^verbatim>\<open>comm_point\<close> is declared in util/netevent.h, which is not among the sources: the
  record keeps the fields this file reads or writes and the state of its event.
\<close>

datatype comm_point_type = comm_tcp_accept | comm_tcp | comm_udp | comm_local | comm_raw

record comm_point =
  com_type :: comm_point_type
  com_fd :: int
  do_not_close :: bool
  listening :: bool

type_synonym comm_store = "nat \<Rightarrow> comm_point"

record listen_dnsport =
  cps :: "nat list"

text \<open>
  Modelled from the spec: \<^verbatim>\<open>comm_point_stop_listening\<close> and
  \<^verbatim>\<open>comm_point_start_listening\<close> of util/netevent.c, which is not among the sources. The
  spec says that a paused comm point stops listening and a resumed one listens again.
\<close>

definition comm_point_stop_listening :: "comm_point \<Rightarrow> comm_point" where
  "comm_point_stop_listening c = c\<lparr>listening := False\<rparr>"

definition comm_point_start_listening :: "comm_point \<Rightarrow> int \<Rightarrow> int \<Rightarrow> comm_point" where
  "comm_point_start_listening c newfd sec = c\<lparr>listening := True\<rparr>"

fun pushback_loop :: "nat list \<Rightarrow> comm_store \<Rightarrow> comm_store" where
  "pushback_loop [] h = h"
| "pushback_loop (p # ps) h =
     (if com_type (h p) \<noteq> comm_udp \<and> com_type (h p) \<noteq> comm_tcp_accept
      then pushback_loop ps h
      else pushback_loop ps (h(p := comm_point_stop_listening (h p))))"

definition listen_pushback :: "listen_dnsport \<Rightarrow> comm_store \<Rightarrow> comm_store" where
  "listen_pushback listen h = pushback_loop (cps listen) h"

fun resume_loop :: "nat list \<Rightarrow> comm_store \<Rightarrow> comm_store" where
  "resume_loop [] h = h"
| "resume_loop (p # ps) h =
     (if com_type (h p) \<noteq> comm_udp \<and> com_type (h p) \<noteq> comm_tcp_accept
      then resume_loop ps h
      else resume_loop ps (h(p := comm_point_start_listening (h p) (-1) (-1))))"

definition listen_resume :: "listen_dnsport \<Rightarrow> comm_store \<Rightarrow> comm_store" where
  "listen_resume listen h = resume_loop (cps listen) h"

text \<open>The comm points of the list that the two loops do not pass over.\<close>

definition accepting_points :: "listen_dnsport \<Rightarrow> comm_store \<Rightarrow> nat set" where
  "accepting_points listen h =
     {a \<in> set (cps listen). com_type (h a) = comm_udp \<or> com_type (h a) = comm_tcp_accept}"

definition example_store :: comm_store where
  "example_store =
     (\<lambda>a. \<lparr>com_type = (if a < 3 then comm_udp else if a = 3 then comm_tcp_accept else comm_tcp),
           com_fd = int a + 3, do_not_close = (a < 4), listening = True\<rparr>)"

definition example_listen :: listen_dnsport where
  "example_listen = \<lparr>cps = [3, 2, 1, 0]\<rparr>"

section \<open>The query mesh (services/mesh.h)\<close>

text \<open>
  mesh.h declares the mesh: the structures \<^verbatim>\<open>mesh_area\<close> and \<^verbatim>\<open>mesh_state\<close> and the
  functions on them, with their contracts in comments. The bodies are in services/mesh.c,
  which is not among the sources, so the functions below are modelled from the spec
  (sections 3 and 4.3), and from the contracts of mesh.h where it states them.

  A query key stands for the tuple of qname, qtype, qclass, flags and priming bit; keys
  are totally ordered. The two ordered containers of the mesh, and the super-set and
  sub-set of a state, are kept as lists in ascending key order without repetition:
  iterating a set is going through its list.
\<close>

type_synonym qkey = nat

type_synonym size_t = "64 word"

datatype module_ev = module_event_new | module_event_pass | module_event_reply
  | module_event_capsfail | module_event_moddone

datatype module_ext_state = module_wait | module_next | module_restart
  | module_finished | module_error

datatype mesh_error = AllocFailure | CycleRefusal

text \<open>
  Modelled from the spec: the state of a query (section 3). Of \<^verbatim>\<open>struct mesh_state\<close> the
  record has the replies to clients (by query id) and the two sets of references. The
  structure holds its \<^verbatim>\<open>module_qstate\<close> by value; that type is declared in util/module.h,
  which is not among the sources, so the record keeps of it the module-pipeline position
  of the spec's data model: the module index, and the event the state is to be run with
  next, which section 4.3.6 calls its pending event.
\<close>

record mesh_state =
  curmod :: int
  pending_event :: module_ev
  reply_list :: "nat list"
  super_set :: "qkey list"
  sub_set :: "qkey list"

record mesh_area =
  run :: "qkey list"
  all :: "(qkey \<times> mesh_state) list"
  num_reply_addrs :: size_t
  num_reply_states :: size_t
  num_detached_states :: size_t
  replies_sent :: size_t

text \<open>
  Modelled from the spec: insertion into and deletion from an ordered set
  (util/rbtree.h is not among the sources). Inserting a key that is present changes
  nothing.
\<close>

definition rbtree_insert :: "qkey \<Rightarrow> qkey list \<Rightarrow> qkey list" where
  "rbtree_insert k xs = (if k \<in> set xs then xs else insort k xs)"

definition rbtree_delete :: "qkey \<Rightarrow> qkey list \<Rightarrow> qkey list" where
  "rbtree_delete k xs = removeAll k xs"

text \<open>
  Modelled from the spec: \<^verbatim>\<open>mesh_area_find\<close>, the lookup of a key in \<^verbatim>\<open>all\<close>, and the
  update in place of the state stored under a key.
\<close>

definition mesh_area_find :: "mesh_area \<Rightarrow> qkey \<Rightarrow> mesh_state option" where
  "mesh_area_find mesh k = map_of (all mesh) k"

definition mesh_state_update :: "qkey \<Rightarrow> (mesh_state \<Rightarrow> mesh_state) \<Rightarrow> mesh_area \<Rightarrow> mesh_area" where
  "mesh_state_update k f mesh =
     mesh\<lparr>all := map (\<lambda>(k', st). if k' = k then (k', f st) else (k', st)) (all mesh)\<rparr>"

text \<open>
  Modelled from the spec: \<^verbatim>\<open>mesh_detect_cycle\<close> (section 4.3.8), a depth-first search from
  the sub-key through \<^verbatim>\<open>all\<close> along the sub-set edges with a visited set, true iff the
  given state is reached. The search ends because every expansion of a key of \<^verbatim>\<open>all\<close>
  adds it to the visited set.
\<close>

definition subs_of :: "(qkey \<times> mesh_state) list \<Rightarrow> qkey \<Rightarrow> qkey list" where
  "subs_of al k = (case map_of al k of None \<Rightarrow> [] | Some st \<Rightarrow> sub_set st)"

function find_in_subsub :: "(qkey \<times> mesh_state) list \<Rightarrow> qkey \<Rightarrow> qkey list \<Rightarrow> qkey set \<Rightarrow> bool" where
  "find_in_subsub al t [] vis = False"
| "find_in_subsub al t (k # stack) vis =
     (if k = t then True
      else if k \<in> vis then find_in_subsub al t stack vis
      else find_in_subsub al t (subs_of al k @ stack) (insert k vis))"
  by pat_completeness auto
termination
proof (relation "measures [\<lambda>(al, t, stack, vis). card (fst ` set al - vis),
                           \<lambda>(al, t, stack, vis). length stack]")
  show "wf (measures [\<lambda>(al, t, stack, vis). card (fst ` set al - vis),
                      \<lambda>(al, t, stack, vis). length stack])"
    by simp
next
  fix al :: "(qkey \<times> mesh_state) list" and t k :: qkey and stack :: "qkey list" and vis :: "qkey set"
  assume "k \<noteq> t" "k \<in> vis"
  then show "((al, t, stack, vis), (al, t, k # stack, vis))
      \<in> measures [\<lambda>(al, t, stack, vis). card (fst ` set al - vis),
                   \<lambda>(al, t, stack, vis). length stack]"
    by simp
next
  fix al :: "(qkey \<times> mesh_state) list" and t k :: qkey and stack :: "qkey list" and vis :: "qkey set"
  assume a: "k \<noteq> t" "k \<notin> vis"
  show "((al, t, subs_of al k @ stack, insert k vis), (al, t, k # stack, vis))
      \<in> measures [\<lambda>(al, t, stack, vis). card (fst ` set al - vis),
                   \<lambda>(al, t, stack, vis). length stack]"
  proof (cases "k \<in> fst ` set al")
    case True
    have "fst ` set al - insert k vis \<subset> fst ` set al - vis"
      using True a by auto
    then have "card (fst ` set al - insert k vis) < card (fst ` set al - vis)"
      by (intro psubset_card_mono) simp_all
    then show ?thesis by simp
  next
    case False
    then have n: "map_of al k = None"
      by (simp add: map_of_eq_None_iff)
    have "fst ` set al - insert k vis = fst ` set al - vis"
      using False by auto
    then show ?thesis
      using n by (simp add: subs_of_def)
  qed
qed

definition mesh_detect_cycle :: "mesh_area \<Rightarrow> qkey \<Rightarrow> qkey \<Rightarrow> bool" where
  "mesh_detect_cycle mesh from_state sub_key = find_in_subsub (all mesh) from_state [sub_key] {}"


text \<open>
  Modelled from the spec: \<^verbatim>\<open>mesh_state_create\<close>, the insertion of a new state into
  \<^verbatim>\<open>all\<close>, \<^verbatim>\<open>mesh_state_attachment\<close> and \<^verbatim>\<open>mesh_attach_sub\<close> (section 4.3.2): refuse a
  cycle; look the sub-key up and reuse the state (\<open>out_newq\<close> none) or create it
  (\<open>out_newq\<close> the new state); insert the mutual edges, a duplicate request changing
  nothing; count one detached state less when the sub, which was a candidate root (no
  reply, no super), gains a super. A state created by the call was no candidate root
  before it. Creating a state or an edge needs memory (section 7, AllocFailure):
  \<open>alloc_ok\<close> says whether it can be had. A new state waits for its first tick, which
  delivers the event NEW (section 4.2).
\<close>

definition mesh_state_create :: "mesh_state" where
  "mesh_state_create =
     \<lparr>curmod = 0, pending_event = module_event_new, reply_list = [], super_set = [],
      sub_set = []\<rparr>"

definition mesh_area_insert :: "qkey \<Rightarrow> mesh_state \<Rightarrow> mesh_area \<Rightarrow> mesh_area" where
  "mesh_area_insert k st mesh =
     (if k \<in> fst ` set (all mesh) then mesh
      else mesh\<lparr>all := insort_key fst (k, st) (all mesh)\<rparr>)"

definition mesh_state_attachment :: "qkey \<Rightarrow> qkey \<Rightarrow> mesh_area \<Rightarrow> mesh_area" where
  "mesh_state_attachment super sub mesh =
     mesh_state_update super (\<lambda>st. st\<lparr>sub_set := rbtree_insert sub (sub_set st)\<rparr>)
       (mesh_state_update sub (\<lambda>st. st\<lparr>super_set := rbtree_insert super (super_set st)\<rparr>) mesh)"

definition mesh_attach_sub ::
  "bool \<Rightarrow> mesh_area \<Rightarrow> qkey \<Rightarrow> qkey \<Rightarrow> (mesh_error + qkey option) \<times> mesh_area" where
  "mesh_attach_sub alloc_ok mesh parent sub_key =
     (if mesh_detect_cycle mesh parent sub_key then (Inl CycleRefusal, mesh)
      else
        (case mesh_area_find mesh sub_key of
           None \<Rightarrow>
             if \<not> alloc_ok then (Inl AllocFailure, mesh)
             else (Inr (Some sub_key),
                   mesh_state_attachment parent sub_key
                     (mesh_area_insert sub_key mesh_state_create mesh))
         | Some sub \<Rightarrow>
             if parent \<in> set (super_set sub) then (Inr None, mesh_state_attachment parent sub_key mesh)
             else if \<not> alloc_ok then (Inl AllocFailure, mesh)
             else (Inr None,
                   (mesh_state_attachment parent sub_key mesh)
                     \<lparr>num_detached_states :=
                        (if reply_list sub = [] \<and> super_set sub = []
                         then num_detached_states mesh - 1
                         else num_detached_states mesh)\<rparr>)))"

text \<open>Concrete meshes.\<close>

definition example_mesh :: mesh_area where
  "example_mesh =
     \<lparr>run = [],
      all = [(1, \<lparr>curmod = 0, pending_event = module_event_pass, reply_list = [7],
                  super_set = [], sub_set = []\<rparr>)],
      num_reply_addrs = 1, num_reply_states = 1, num_detached_states = 0, replies_sent = 0\<rparr>"

definition example_mesh_attached :: mesh_area where
  "example_mesh_attached =
     \<lparr>run = [],
      all = [(1, \<lparr>curmod = 0, pending_event = module_event_pass, reply_list = [7],
                  super_set = [], sub_set = [2]\<rparr>),
             (2, \<lparr>curmod = 0, pending_event = module_event_new, reply_list = [],
                  super_set = [1], sub_set = []\<rparr>)],
      num_reply_addrs = 1, num_reply_states = 1, num_detached_states = 0, replies_sent = 0\<rparr>"

text \<open>
  Modelled from the spec: \<^verbatim>\<open>mesh_query_done\<close> (section 4.3.4: every reply is sent and
  counted, the reply list drained, the reply counters decremented); \<^verbatim>\<open>mesh_walk_supers\<close>,
  the walk over the super-set that the scheduler makes when a state completes (section
  4.3.6: "for each super S: mark S.pending\_event := MODDONE; insert S into run", in the
  iteration order of the super-set; the callback of section 4.3.5 touches module-private
  data only, which the mesh does not read); \<^verbatim>\<open>mesh_detach_subs\<close> (section 4.3.3) and
  \<^verbatim>\<open>mesh_state_delete\<close> (detach from all super and sub edges, remove from \<^verbatim>\<open>all\<close>). The
  counters change where the spec says they do.
\<close>

definition mesh_query_done :: "mesh_area \<Rightarrow> qkey \<Rightarrow> mesh_area" where
  "mesh_query_done mesh m =
     (case mesh_area_find mesh m of
        None \<Rightarrow> mesh
      | Some st \<Rightarrow>
          (mesh_state_update m (\<lambda>st. st\<lparr>reply_list := []\<rparr>) mesh)
            \<lparr>replies_sent := replies_sent mesh + of_nat (length (reply_list st)),
             num_reply_addrs := num_reply_addrs mesh - of_nat (length (reply_list st)),
             num_reply_states :=
               (if reply_list st = [] then num_reply_states mesh
                else num_reply_states mesh - 1)\<rparr>)"

definition mesh_walk_supers :: "mesh_area \<Rightarrow> qkey \<Rightarrow> mesh_area" where
  "mesh_walk_supers mesh m =
     (case mesh_area_find mesh m of
        None \<Rightarrow> mesh
      | Some st \<Rightarrow>
          fold (\<lambda>sup mesh1.
                  (mesh_state_update sup (\<lambda>ss. ss\<lparr>pending_event := module_event_moddone\<rparr>) mesh1)
                    \<lparr>run := rbtree_insert sup (run mesh1)\<rparr>)
            (super_set st) mesh)"

definition detach_one :: "qkey \<Rightarrow> qkey \<Rightarrow> mesh_area \<Rightarrow> mesh_area" where
  "detach_one m sub mesh =
     (case mesh_area_find mesh sub of
        None \<Rightarrow> mesh
      | Some ss \<Rightarrow>
          (mesh_state_update sub (\<lambda>st. st\<lparr>super_set := rbtree_delete m (super_set st)\<rparr>) mesh)
            \<lparr>num_detached_states :=
               (if m \<in> set (super_set ss) \<and> rbtree_delete m (super_set ss) = []
                   \<and> reply_list ss = []
                then num_detached_states mesh + 1 else num_detached_states mesh)\<rparr>)"

definition mesh_detach_subs :: "mesh_area \<Rightarrow> qkey \<Rightarrow> mesh_area" where
  "mesh_detach_subs mesh m =
     (case mesh_area_find mesh m of
        None \<Rightarrow> mesh
      | Some st \<Rightarrow>
          mesh_state_update m (\<lambda>st. st\<lparr>sub_set := []\<rparr>)
            (fold (detach_one m) (sub_set st) mesh))"

definition mesh_state_delete :: "mesh_area \<Rightarrow> qkey \<Rightarrow> mesh_area" where
  "mesh_state_delete mesh m =
     (case mesh_area_find mesh m of
        None \<Rightarrow> mesh
      | Some st \<Rightarrow>
          (let mesh1 = mesh_detach_subs mesh m;
               mesh2 = fold (\<lambda>sup. mesh_state_update sup
                              (\<lambda>st. st\<lparr>sub_set := rbtree_delete m (sub_set st)\<rparr>))
                         (super_set st) mesh1
           in mesh2\<lparr>all := filter (\<lambda>(k, st). k \<noteq> m) (all mesh2)\<rparr>))"

text \<open>
  Modelled from the spec: the scheduler \<^verbatim>\<open>run_mesh()\<close> of section 4.3.6, which mesh.h
  declares as \<^verbatim>\<open>mesh_run\<close>. \<open>mesh_continue\<close> acts on the return code of the module.
  \<open>run_mesh\<close> is the loop: while \<^verbatim>\<open>run\<close> is not empty, take the state with the lowest key
  out of it, invoke its module with the state's pending event, set the pending event to
  PASS, and act on the return code. The modules are a parameter: \<open>operate\<close> gives the
  return code of a state's module for an event, and the mesh as the module left it.
  Outbound entries are not modelled. A key in \<^verbatim>\<open>run\<close> that has no state in \<^verbatim>\<open>all\<close> is
  dropped. The loop need not end, so it runs on fuel; it returns the states it ran,
  each with the event it was run with, in order. \<open>pending_of\<close> reads the pending event
  of the state under a key. (The comments of mesh.h on \<^verbatim>\<open>mesh_walk_supers\<close> and
  \<^verbatim>\<open>mesh_run\<close> name \<^verbatim>\<open>module_event_pass\<close> as the event of the states that become
  runnable; the model follows section 4.3.6.)
\<close>

definition mesh_continue :: "mesh_area \<Rightarrow> qkey \<Rightarrow> module_ext_state \<Rightarrow> mesh_area" where
  "mesh_continue mesh m s =
     (case s of
        module_wait \<Rightarrow> mesh
      | module_next \<Rightarrow>
          (mesh_state_update m (\<lambda>st. st\<lparr>curmod := curmod st + 1\<rparr>) mesh)
            \<lparr>run := rbtree_insert m (run mesh)\<rparr>
      | module_restart \<Rightarrow>
          (mesh_state_update m (\<lambda>st. st\<lparr>curmod := curmod st - 1\<rparr>) mesh)
            \<lparr>run := rbtree_insert m (run mesh)\<rparr>
      | module_finished \<Rightarrow>
          mesh_state_delete (mesh_walk_supers (mesh_query_done mesh m) m) m
      | module_error \<Rightarrow>
          mesh_state_delete (mesh_walk_supers (mesh_query_done mesh m) m) m)"

type_synonym operate_fn = "mesh_area \<Rightarrow> qkey \<Rightarrow> module_ev \<Rightarrow> module_ext_state \<times> mesh_area"

fun run_mesh ::
  "operate_fn \<Rightarrow> nat \<Rightarrow> mesh_area \<Rightarrow> ((qkey \<times> module_ev) list \<times> mesh_area) option" where
  "run_mesh operate 0 mesh = None"
| "run_mesh operate (Suc fuel) mesh =
     (case run mesh of
        [] \<Rightarrow> Some ([], mesh)
      | m # ks \<Rightarrow>
          (case mesh_area_find mesh m of
             None \<Rightarrow> run_mesh operate fuel (mesh\<lparr>run := ks\<rparr>)
           | Some st \<Rightarrow>
               (case operate (mesh\<lparr>run := ks\<rparr>) m (pending_event st) of
                  (s, mesh1) \<Rightarrow>
                    (case run_mesh operate fuel
                            (mesh_continue
                               (mesh_state_update m
                                  (\<lambda>st. st\<lparr>pending_event := module_event_pass\<rparr>) mesh1)
                               m s) of
                       None \<Rightarrow> None
                     | Some (tr, mesh2) \<Rightarrow> Some ((m, pending_event st) # tr, mesh2)))))"

definition pending_of :: "mesh_area \<Rightarrow> qkey \<Rightarrow> module_ev option" where
  "pending_of mesh k = map_option pending_event (mesh_area_find mesh k)"

text \<open>
  The mesh of the spec's scenario "super fan-out": states 1 and 2 have both attached the
  sub-query 3, which is runnable; the module of 3 finishes, every other module waits.
\<close>

definition fanout_mesh :: mesh_area where
  "fanout_mesh =
     \<lparr>run = [3],
      all = [(1, \<lparr>curmod = 0, pending_event = module_event_pass, reply_list = [11],
                  super_set = [], sub_set = [3]\<rparr>),
             (2, \<lparr>curmod = 0, pending_event = module_event_pass, reply_list = [12],
                  super_set = [], sub_set = [3]\<rparr>),
             (3, \<lparr>curmod = 0, pending_event = module_event_new, reply_list = [],
                  super_set = [1, 2], sub_set = []\<rparr>)],
      num_reply_addrs = 2, num_reply_states = 2, num_detached_states = 0, replies_sent = 0\<rparr>"

definition fanout_operate :: operate_fn where
  "fanout_operate mesh k ev = (if k = 3 then (module_finished, mesh) else (module_wait, mesh))"

section \<open>Properties of the listener\<close>

subsection \<open>What each system call does to the world\<close>

lemma next_outcome_eq: "next_outcome k w = (outcome k 0 w, skip k w)"
proof (cases "script w k")
  case Nil
  then have "(script w)(k := []) = script w" by (simp add: fun_upd_idem)
  with Nil show ?thesis by (simp add: next_outcome_def outcome_def skip_def)
next
  case (Cons r rs)
  then show ?thesis by (simp add: next_outcome_def outcome_def skip_def)
qed

lemma outcome_skip:
  "outcome k i (skip k' w) = outcome k (if k = k' then Suc i else i) w"
  by (cases "script w k'") (auto simp: outcome_def skip_def nth_tl)

lemma skip_fields:
  "fds (skip k w) = fds w" "logs (skip k w) = logs w" "next_fd (skip k w) = next_fd w"
  by (simp_all add: skip_def)

lemma outcome_upd:
  "outcome k i (w\<lparr>fds := f\<rparr>) = outcome k i w"
  "outcome k i (w\<lparr>logs := l\<rparr>) = outcome k i w"
  "outcome k i (w\<lparr>next_fd := n\<rparr>) = outcome k i w"
  by (simp_all add: outcome_def)

lemmas prim_defs = next_outcome_eq outcome_skip skip_fields outcome_upd upd_sock_def

lemma log_proj [simp]:
  "logs (log m w) = logs w @ [m]"
  "fds (log m w) = fds w"
  "next_fd (log m w) = next_fd w"
  "outcome k i (log m w) = outcome k i w"
  "warnings (log m w) = warnings w @ (if is_warning m then [m] else [])"
  by (simp_all add: log_def warnings_def outcome_def)

lemma verbose_print_addr_proj [simp]:
  "fds (verbose_print_addr plat a w) = fds w"
  "next_fd (verbose_print_addr plat a w) = next_fd w"
  "outcome k i (verbose_print_addr plat a w) = outcome k i w"
  "warnings (verbose_print_addr plat a w) = warnings w"
  by (simp_all add: verbose_print_addr_def)

lemma sys_close_proj [simp]:
  "logs (sys_close s w) = logs w"
  "fds (sys_close s w) = (fds w)(s := None)"
  "next_fd (sys_close s w) = next_fd w"
  "outcome k i (sys_close s w) = outcome k i w"
  "warnings (sys_close s w) = warnings w"
  by (simp_all add: sys_close_def warnings_def outcome_def)

lemma sys_getaddrinfo_proj [simp]:
  "fst (sys_getaddrinfo n p h w) =
     (case outcome K_getaddrinfo 0 w of
        None \<Rightarrow> Some \<lparr>ai_flags = ai_flags h, ai_family = ai_family h,
                 ai_socktype = ai_socktype h, ai_addr = \<lparr>sa_node = n, sa_port = p\<rparr>\<rparr>
      | Some e \<Rightarrow> None)"
  "logs (snd (sys_getaddrinfo n p h w)) = logs w"
  "fds (snd (sys_getaddrinfo n p h w)) = fds w"
  "next_fd (snd (sys_getaddrinfo n p h w)) = next_fd w"
  "outcome k i (snd (sys_getaddrinfo n p h w)) = outcome k (if k = K_getaddrinfo then Suc i else i) w"
  "warnings (snd (sys_getaddrinfo n p h w)) = warnings w"
  by (simp_all add: sys_getaddrinfo_def prim_defs warnings_def split: option.splits)

lemma sys_socket_proj [simp]:
  "fst (sys_socket f t w) =
     (case outcome K_socket 0 w of None \<Rightarrow> Inr (next_fd w) | Some e \<Rightarrow> Inl e)"
  "logs (snd (sys_socket f t w)) = logs w"
  "fds (snd (sys_socket f t w)) =
     (case outcome K_socket 0 w of
        None \<Rightarrow> (fds w)(next_fd w \<mapsto> \<lparr>so_family = f, so_type = t, so_opts = [],
                    so_bound = None, so_nonblock = False, so_backlog = None\<rparr>)
      | Some e \<Rightarrow> fds w)"
  "next_fd (snd (sys_socket f t w)) =
     (case outcome K_socket 0 w of None \<Rightarrow> next_fd w + 1 | Some e \<Rightarrow> next_fd w)"
  "outcome k i (snd (sys_socket f t w)) = outcome k (if k = K_socket then Suc i else i) w"
  "warnings (snd (sys_socket f t w)) = warnings w"
  by (simp_all add: sys_socket_def prim_defs warnings_def split: option.splits)

lemma sys_setsockopt_proj [simp]:
  "fst (sys_setsockopt s opt w) = outcome K_setsockopt 0 w"
  "logs (snd (sys_setsockopt s opt w)) = logs w"
  "next_fd (snd (sys_setsockopt s opt w)) = next_fd w"
  "outcome k i (snd (sys_setsockopt s opt w)) = outcome k (if k = K_setsockopt then Suc i else i) w"
  "warnings (snd (sys_setsockopt s opt w)) = warnings w"
  "dom (fds (snd (sys_setsockopt s opt w))) = dom (fds w)"
  by (auto simp add: sys_setsockopt_def prim_defs warnings_def split: option.splits)

lemma sys_bind_proj [simp]:
  "fst (sys_bind s a w) = outcome K_bind 0 w"
  "logs (snd (sys_bind s a w)) = logs w"
  "next_fd (snd (sys_bind s a w)) = next_fd w"
  "outcome k i (snd (sys_bind s a w)) = outcome k (if k = K_bind then Suc i else i) w"
  "warnings (snd (sys_bind s a w)) = warnings w"
  "dom (fds (snd (sys_bind s a w))) = dom (fds w)"
  by (auto simp add: sys_bind_def prim_defs warnings_def split: option.splits)

lemma fd_set_nonblock_proj [simp]:
  "fst (fd_set_nonblock s w) = (outcome K_nonblock 0 w = None)"
  "logs (snd (fd_set_nonblock s w)) = logs w"
  "next_fd (snd (fd_set_nonblock s w)) = next_fd w"
  "outcome k i (snd (fd_set_nonblock s w)) = outcome k (if k = K_nonblock then Suc i else i) w"
  "warnings (snd (fd_set_nonblock s w)) = warnings w"
  "dom (fds (snd (fd_set_nonblock s w))) = dom (fds w)"
  by (auto simp add: fd_set_nonblock_def prim_defs warnings_def split: option.splits)

lemma sys_listen_proj [simp]:
  "fst (sys_listen s b w) = outcome K_listen 0 w"
  "logs (snd (sys_listen s b w)) = logs w"
  "next_fd (snd (sys_listen s b w)) = next_fd w"
  "outcome k i (snd (sys_listen s b w)) = outcome k (if k = K_listen then Suc i else i) w"
  "warnings (snd (sys_listen s b w)) = warnings w"
  "dom (fds (snd (sys_listen s b w))) = dom (fds w)"
  by (auto simp add: sys_listen_def prim_defs warnings_def split: option.splits)

lemma sys_malloc_proj [simp]:
  "fst (sys_malloc w) = (outcome K_malloc 0 w = None)"
  "logs (snd (sys_malloc w)) = logs w"
  "fds (snd (sys_malloc w)) = fds w"
  "next_fd (snd (sys_malloc w)) = next_fd w"
  "outcome k i (snd (sys_malloc w)) = outcome k (if k = K_malloc then Suc i else i) w"
  "warnings (snd (sys_malloc w)) = warnings w"
  by (auto simp add: sys_malloc_def prim_defs warnings_def split: option.splits)

subsection \<open>Warnings and tags\<close>

lemma create_udp_sock_warnings [simp]:
  "warnings (snd (create_udp_sock plat fam st addr v w)) = warnings w"
  by (simp add: create_udp_sock_def split_beta split: option.splits sum.splits bool.splits)

lemma create_tcp_accept_sock_warnings [simp]:
  "warnings (snd (create_tcp_accept_sock plat addr v w)) = warnings w"
  by (simp add: create_tcp_accept_sock_def split_beta split: option.splits sum.splits bool.splits)

lemma make_sock_warnings [simp]:
  "warnings (snd (make_sock plat stype ifname prt hints v w)) = warnings w"
  by (simp add: make_sock_def split_beta split: option.splits sum.splits bool.splits)


lemma port_insert_proj [simp]:
  "fst (port_insert list s ft w) = (outcome K_malloc 0 w = None)"
  "fst (snd (port_insert list s ft w)) =
     (if outcome K_malloc 0 w = None then \<lparr>fd = s, ftype = ft\<rparr> # list else list)"
  "logs (snd (snd (port_insert list s ft w))) = logs w"
  "fds (snd (snd (port_insert list s ft w))) = fds w"
  "next_fd (snd (snd (port_insert list s ft w))) = next_fd w"
  "outcome k i (snd (snd (port_insert list s ft w))) = outcome k (if k = K_malloc then Suc i else i) w"
  "warnings (snd (snd (port_insert list s ft w))) = warnings w"
  by (simp_all add: port_insert_def split_beta split: bool.splits)

lemma listening_ports_free_proj [simp]:
  "logs (listening_ports_free list w) = logs w"
  "next_fd (listening_ports_free list w) = next_fd w"
  "outcome k i (listening_ports_free list w) = outcome k i w"
  "warnings (listening_ports_free list w) = warnings w"
  unfolding listening_ports_free_def
  by (induction list arbitrary: w; simp)+

lemma ports_create_if_tcp_warnings [simp]:
  "warnings (snd (snd (ports_create_if_tcp plat ifname dtcp hints prt list w))) = warnings w"
  by (simp add: ports_create_if_tcp_def split_beta split: sum.splits bool.splits)

lemma ports_create_if_tcp_only_warnings:
  "warnings (snd (snd (ports_create_if plat ifname False False dtcp hints prt list w))) = warnings w"
  by (simp add: ports_create_if_def)

lemma no_ancil_simps [simp]:
  "no_ancil []"
  "no_ancil (p # list) = (ftype p \<noteq> listen_type_udpancil \<and> no_ancil list)"
  by (auto simp: no_ancil_def)

lemma ports_create_if_tcp_no_ancil:
  "no_ancil list \<Longrightarrow> no_ancil (fst (snd (ports_create_if_tcp plat ifname dtcp hints prt list w)))"
  by (simp add: ports_create_if_tcp_def split_beta split: sum.splits bool.splits)

lemma ports_create_if_no_ancil:
  "no_ancil list \<Longrightarrow> no_ancil (fst (snd (ports_create_if plat ifname False dudp dtcp hints prt list w)))"
  by (simp add: ports_create_if_def split_beta ports_create_if_tcp_no_ancil split: sum.splits bool.splits)

lemma open_ifs_no_ancil:
  "no_ancil list \<Longrightarrow> no_ancil (fst (open_ifs plat ip4 ip6 dudp dtcp hints prt xs list w))"
proof (induction xs arbitrary: list w hints ip4 ip6)
  case Nil
  then show ?case by simp
next
  case (Cons x xs)
  show ?case
    by (simp add: split_beta Cons.IH Cons.prems ports_create_if_no_ancil split: bool.splits)
qed

lemma open_ifs_tcp_only_warnings:
  "warnings (snd (open_ifs plat ip4 ip6 False dtcp hints prt xs list w)) = warnings w"
proof (induction xs arbitrary: list w hints ip4 ip6)
  case Nil
  then show ?case by simp
next
  case (Cons x xs)
  show ?case
    by (simp add: split_beta Cons.IH ports_create_if_tcp_only_warnings split: bool.splits)
qed

lemma open_defaults_no_ancil:
  "no_ancil (fst (open_defaults plat ip4 ip6 False dudp dtcp hints prt w))"
  by (simp add: open_defaults_def split_beta ports_create_if_no_ancil split: bool.splits)

lemma open_defaults_tcp_only_warnings:
  "warnings (snd (open_defaults plat ip4 ip6 False False dtcp hints prt w)) = warnings w"
  by (simp add: open_defaults_def split_beta ports_create_if_tcp_only_warnings split: bool.splits)

subsection \<open>Interface-automatic and the transports\<close>

text \<open>
  Claim C9. \<^verbatim>\<open>listening_ports_open\<close> computes \<^verbatim>\<open>do_auto\<close> as
  \<^verbatim>\<open>cfg->if_automatic && cfg->do_udp\<close>. With \<^verbatim>\<open>do_udp\<close> off the option is ignored: the
  call behaves exactly as with \<^verbatim>\<open>if_automatic\<close> off, the returned list holds no
  \<^verbatim>\<open>listen_type_udpancil\<close> entry, and no warning line is added to the log.
\<close>

theorem if_automatic_needs_do_udp:
  assumes "\<not> do_udp cfg"
  shows "listening_ports_open plat cfg w = listening_ports_open plat (cfg\<lparr>if_automatic := False\<rparr>) w
     \<and> no_ancil (fst (listening_ports_open plat cfg w))
     \<and> warnings (snd (listening_ports_open plat cfg w)) = warnings w"
proof (intro conjI)
  show "listening_ports_open plat cfg w = listening_ports_open plat (cfg\<lparr>if_automatic := False\<rparr>) w"
    using assms by (simp add: listening_ports_open_def Let_def cong: if_cong)
  show "no_ancil (fst (listening_ports_open plat cfg w))"
    using assms
    by (simp add: listening_ports_open_def Let_def open_ifs_no_ancil open_defaults_no_ancil)
  show "warnings (snd (listening_ports_open plat cfg w)) = warnings w"
    using assms
    by (simp add: listening_ports_open_def Let_def open_ifs_tcp_only_warnings
        open_defaults_tcp_only_warnings)
qed


theorem if_automatic_needs_do_udp_witness:
  "\<not> do_udp (cfg_default\<lparr>if_automatic := True, do_udp := False\<rparr>)
   \<and> listening_ports_open example_platform
         (cfg_default\<lparr>if_automatic := True, do_udp := False\<rparr>) quiet_world
       = listening_ports_open example_platform
           (cfg_default\<lparr>if_automatic := True, do_udp := False, if_automatic := False\<rparr>)
           quiet_world
   \<and> no_ancil (fst (listening_ports_open example_platform
         (cfg_default\<lparr>if_automatic := True, do_udp := False\<rparr>) quiet_world))
   \<and> warnings (snd (listening_ports_open example_platform
         (cfg_default\<lparr>if_automatic := True, do_udp := False\<rparr>) quiet_world))
       = warnings quiet_world"
proof -
  have h: "\<not> do_udp (cfg_default\<lparr>if_automatic := True, do_udp := False\<rparr>)"
    by simp
  show ?thesis
    using h if_automatic_needs_do_udp [OF h, of example_platform quiet_world] by blast
qed

subsection \<open>When no system call fails\<close>

lemma no_failures_outcome [simp]: "no_failures w \<Longrightarrow> outcome k i w = None"
  by (simp add: no_failures_def)

lemma no_failures_skip: "no_failures w \<Longrightarrow> no_failures (skip k w)"
  by (simp add: no_failures_def outcome_skip)

lemma no_failures_upd [simp]:
  "no_failures (w\<lparr>fds := f\<rparr>) = no_failures w"
  "no_failures (w\<lparr>logs := l\<rparr>) = no_failures w"
  "no_failures (w\<lparr>next_fd := n\<rparr>) = no_failures w"
  by (simp_all add: no_failures_def outcome_upd)

lemma no_failures_prims [simp]:
  "no_failures w \<Longrightarrow> no_failures (log m w)"
  "no_failures w \<Longrightarrow> no_failures (verbose_print_addr plat ai w)"
  "no_failures w \<Longrightarrow> no_failures (sys_close s w)"
  "no_failures w \<Longrightarrow> no_failures (snd (sys_getaddrinfo n p h w))"
  "no_failures w \<Longrightarrow> no_failures (snd (sys_socket f t w))"
  "no_failures w \<Longrightarrow> no_failures (snd (sys_setsockopt s opt w))"
  "no_failures w \<Longrightarrow> no_failures (snd (sys_bind s sa w))"
  "no_failures w \<Longrightarrow> no_failures (snd (fd_set_nonblock s w))"
  "no_failures w \<Longrightarrow> no_failures (snd (sys_listen s b w))"
  "no_failures w \<Longrightarrow> no_failures (snd (sys_malloc w))"
  by (simp_all add: log_def verbose_print_addr_def sys_close_def sys_getaddrinfo_def
      sys_socket_def sys_setsockopt_def sys_bind_def fd_set_nonblock_def sys_listen_def
      sys_malloc_def next_outcome_eq no_failures_skip upd_sock_def split: option.splits)

lemma bound_at_prims [simp]:
  "bound_at (log m w) = bound_at w"
  "bound_at (verbose_print_addr plat ai w) = bound_at w"
  "bound_at (sys_close s w) = (bound_at w)(s := None)"
  "bound_at (snd (sys_getaddrinfo n p h w)) = bound_at w"
  "bound_at (snd (sys_malloc w)) = bound_at w"
  "bound_at (snd (sys_setsockopt s opt w)) = bound_at w"
  "bound_at (snd (fd_set_nonblock s w)) = bound_at w"
  "bound_at (snd (sys_listen s b w)) = bound_at w"
  "bound_at (snd (sys_socket f t w)) =
     (case outcome K_socket 0 w of None \<Rightarrow> (bound_at w)(next_fd w := None) | Some e \<Rightarrow> bound_at w)"
  "bound_at (snd (sys_bind s a w)) =
     (if outcome K_bind 0 w = None \<and> s \<in> dom (fds w) then (bound_at w)(s := Some a) else bound_at w)"
  by (auto simp add: bound_at_def fun_eq_iff log_def verbose_print_addr_def sys_close_def sys_getaddrinfo_def
      sys_socket_def sys_setsockopt_def sys_bind_def fd_set_nonblock_def sys_listen_def
      sys_malloc_def prim_defs split: option.splits)

lemma dom_fds_prims [simp]:
  "dom (fds (snd (sys_socket f t w))) =
     (case outcome K_socket 0 w of None \<Rightarrow> insert (next_fd w) (dom (fds w)) | Some e \<Rightarrow> dom (fds w))"
  by (simp split: option.splits)

lemma create_udp_sock_ok:
  assumes "no_failures w"
  shows "fst (create_udp_sock plat fam st addr v w) = Inr (next_fd w)"
    and "no_failures (snd (create_udp_sock plat fam st addr v w))"
    and "next_fd (snd (create_udp_sock plat fam st addr v w)) = next_fd w + 1"
    and "bound_at (snd (create_udp_sock plat fam st addr v w)) = (bound_at w)(next_fd w := Some addr)"
    and "dom (fds (snd (create_udp_sock plat fam st addr v w))) = insert (next_fd w) (dom (fds w))"
  using assms
  by (simp_all add: create_udp_sock_def split_beta)


lemma create_tcp_accept_sock_ok:
  assumes "no_failures w"
  shows "fst (create_tcp_accept_sock plat ai v w) = Inr (next_fd w)"
    and "no_failures (snd (create_tcp_accept_sock plat ai v w))"
    and "next_fd (snd (create_tcp_accept_sock plat ai v w)) = next_fd w + 1"
    and "bound_at (snd (create_tcp_accept_sock plat ai v w)) =
           (bound_at w)(next_fd w := Some (ai_addr ai))"
    and "dom (fds (snd (create_tcp_accept_sock plat ai v w))) = insert (next_fd w) (dom (fds w))"
  using assms
  by (simp_all add: create_tcp_accept_sock_def split_beta)

lemma make_sock_ok:
  assumes "no_failures w" "stype = SOCK_DGRAM \<or> stype = SOCK_STREAM"
  shows "fst (make_sock plat stype ifname prt hints v w) = Inr (next_fd w)"
    and "no_failures (snd (make_sock plat stype ifname prt hints v w))"
    and "next_fd (snd (make_sock plat stype ifname prt hints v w)) = next_fd w + 1"
    and "bound_at (snd (make_sock plat stype ifname prt hints v w)) =
           (bound_at w)(next_fd w := Some \<lparr>sa_node = ifname, sa_port = prt\<rparr>)"
    and "dom (fds (snd (make_sock plat stype ifname prt hints v w))) = insert (next_fd w) (dom (fds w))"
  using assms
  by (auto simp add: make_sock_def split_beta create_udp_sock_ok create_tcp_accept_sock_ok)

lemma set_recvpktinfo_ok:
  assumes "no_failures w" "have_pktinfo plat fam"
  shows "fst (set_recvpktinfo plat s fam w)"
    and "no_failures (snd (set_recvpktinfo plat s fam w))"
    and "next_fd (snd (set_recvpktinfo plat s fam w)) = next_fd w"
    and "bound_at (snd (set_recvpktinfo plat s fam w)) = bound_at w"
    and "warnings (snd (set_recvpktinfo plat s fam w)) = warnings w"
  using assms
  by (auto simp add: set_recvpktinfo_def have_pktinfo_def split_beta split: if_splits)

lemma port_insert_ok [simp]:
  "no_failures w \<Longrightarrow> no_failures (snd (snd (port_insert list s ft w)))"
  "bound_at (snd (snd (port_insert list s ft w))) = bound_at w"
  by (simp_all add: port_insert_def split_beta split: bool.splits)

lemma ports_create_if_tcp_ok:
  assumes "no_failures w"
  shows "fst (ports_create_if_tcp plat ifname dtcp hints prt list w)"
    and "fst (snd (ports_create_if_tcp plat ifname dtcp hints prt list w)) =
           (if dtcp then \<lparr>fd = next_fd w, ftype = listen_type_tcp\<rparr> # list else list)"
    and "no_failures (snd (snd (ports_create_if_tcp plat ifname dtcp hints prt list w)))"
    and "next_fd (snd (snd (ports_create_if_tcp plat ifname dtcp hints prt list w))) =
           (if dtcp then next_fd w + 1 else next_fd w)"
    and "bound_at (snd (snd (ports_create_if_tcp plat ifname dtcp hints prt list w))) =
           (if dtcp then (bound_at w)(next_fd w := Some \<lparr>sa_node = ifname, sa_port = prt\<rparr>)
            else bound_at w)"
  using assms
  by (simp_all add: ports_create_if_tcp_def split_beta make_sock_ok)


lemma set_recvpktinfo_dom [simp]:
  "dom (fds (snd (set_recvpktinfo plat s fam w))) = dom (fds w)"
  by (simp add: set_recvpktinfo_def split_beta split: option.splits)

lemma ports_create_if_tcp_dom:
  assumes "no_failures w"
  shows "dom (fds (snd (snd (ports_create_if_tcp plat ifname dtcp hints prt list w)))) =
           (if dtcp then insert (next_fd w) (dom (fds w)) else dom (fds w))"
  using assms
  by (simp_all add: ports_create_if_tcp_def split_beta make_sock_ok)

lemma ports_create_if_ok:
  assumes "no_failures w" "dudp \<or> dtcp" "dauto \<longrightarrow> have_pktinfo plat (ai_family hints)"
  shows "fst (ports_create_if plat ifname dauto dudp dtcp hints prt list w)"
    and "fst (snd (ports_create_if plat ifname dauto dudp dtcp hints prt list w)) =
           (if dtcp then [\<lparr>fd = (if dauto \<or> dudp then next_fd w + 1 else next_fd w),
                              ftype = listen_type_tcp\<rparr>] else []) @
           (if dauto then [\<lparr>fd = next_fd w, ftype = listen_type_udpancil\<rparr>]
            else if dudp then [\<lparr>fd = next_fd w, ftype = listen_type_udp\<rparr>] else []) @ list"
    and "no_failures (snd (snd (ports_create_if plat ifname dauto dudp dtcp hints prt list w)))"
    and "next_fd (snd (snd (ports_create_if plat ifname dauto dudp dtcp hints prt list w))) =
           next_fd w + (if dauto \<or> dudp then 1 else 0) + (if dtcp then 1 else 0)"
    and "bound_at (snd (snd (ports_create_if plat ifname dauto dudp dtcp hints prt list w))) =
           (\<lambda>s. if next_fd w \<le> s \<and>
                    s < next_fd w + (if dauto \<or> dudp then 1 else 0) + (if dtcp then 1 else 0)
                 then Some \<lparr>sa_node = ifname, sa_port = prt\<rparr> else bound_at w s)"
    and "dom (fds (snd (snd (ports_create_if plat ifname dauto dudp dtcp hints prt list w)))) =
           dom (fds w) \<union> {s. next_fd w \<le> s \<and>
                    s < next_fd w + (if dauto \<or> dudp then 1 else 0) + (if dtcp then 1 else 0)}"
  using assms
  by (auto simp add: ports_create_if_def split_beta make_sock_ok set_recvpktinfo_ok
      ports_create_if_tcp_ok ports_create_if_tcp_dom fun_eq_iff)


lemma ports_create_if_no_transport:
  "\<not> dudp \<Longrightarrow> \<not> dtcp \<Longrightarrow>
     ports_create_if plat ifname dauto dudp dtcp hints prt list w = (False, list, w)"
  by (simp add: ports_create_if_def)

lemma listening_ports_free_Nil [simp]: "listening_ports_free [] w = w"
  by (simp add: listening_ports_free_def)

lemma listening_ports_open_defaults:
  assumes "no_failures w" "ifs cfg = []" "\<not> (if_automatic cfg \<and> do_udp cfg)"
  shows "listening_on (snd (listening_ports_open plat cfg w))
           (rev (fst (listening_ports_open plat cfg w))) = default_sockets plat cfg"
proof (cases "do_udp cfg \<or> (do_tcp cfg \<and> incoming_num_tcp cfg \<noteq> 0)")
  case True
  then show ?thesis
    using assms
    by (auto simp add: listening_ports_open_def open_defaults_def Let_def split_beta ports_create_if_ok
        default_sockets_def one_per_transport_def listening_on_def have_pktinfo_def)
next
  case False
  then show ?thesis
    using assms
    by (auto simp add: listening_ports_open_def open_defaults_def Let_def split_beta ports_create_if_no_transport
        default_sockets_def one_per_transport_def listening_on_def)
qed



subsection \<open>Concrete worlds and the whole listener\<close>

lemma quiet_world_simps [simp]:
  "outcome k i quiet_world = None"
  "logs quiet_world = []"
  "next_fd quiet_world = 3"
  "fds quiet_world = Map.empty"
  by (simp_all add: outcome_def quiet_world_def)

lemma quiet_world_no_failures: "no_failures quiet_world"
  by (simp add: no_failures_def)

lemmas listener_defs = listening_ports_open_def open_defaults_def ports_create_if_def
  ports_create_if_tcp_def make_sock_def create_udp_sock_def create_tcp_accept_sock_def
  set_recvpktinfo_def listening_ports_free_def verbose_print_addr_def Let_def split_beta

subsection \<open>Default and wildcard addresses\<close>




subsection \<open>Warnings that stay in the log\<close>

lemma set_recvpktinfo_warnings [simp]:
  "warnings (snd (set_recvpktinfo plat s fam w)) = warnings w"
  by (simp add: set_recvpktinfo_def split_beta split: option.splits)

lemma ports_create_if_keeps_warnings:
  "m \<in> set (warnings w) \<Longrightarrow>
     m \<in> set (warnings (snd (snd (ports_create_if plat ifname dauto dudp dtcp hints prt list w))))"
  by (simp add: ports_create_if_def split_beta split: sum.splits bool.splits)

lemma open_ifs_keeps_warnings:
  "m \<in> set (warnings w) \<Longrightarrow>
     m \<in> set (warnings (snd (open_ifs plat ip4 ip6 dudp dtcp hints prt xs list w)))"
proof (induction xs arbitrary: list w hints ip4 ip6)
  case Nil
  then show ?case by simp
next
  case (Cons x xs)
  show ?case
    by (simp add: split_beta Cons.IH Cons.prems ports_create_if_keeps_warnings split: bool.splits)
qed

lemma open_defaults_keeps_warnings:
  "m \<in> set (warnings w) \<Longrightarrow>
     m \<in> set (warnings (snd (open_defaults plat ip4 ip6 dauto dudp dtcp hints prt w)))"
  by (simp add: open_defaults_def split_beta ports_create_if_keeps_warnings split: bool.splits)

lemma listening_ports_open_keeps_warnings:
  "m \<in> set (warnings w) \<Longrightarrow> m \<in> set (warnings (snd (listening_ports_open plat cfg w)))"
  by (simp add: listening_ports_open_def Let_def open_ifs_keeps_warnings
      open_defaults_keeps_warnings)

lemma ports_create_if_ok_warnings:
  assumes "no_failures w" "dauto \<longrightarrow> have_pktinfo plat (ai_family hints)"
  shows "warnings (snd (snd (ports_create_if plat ifname dauto dudp dtcp hints prt list w))) =
           warnings w"
  using assms
  by (auto simp add: ports_create_if_def split_beta make_sock_ok set_recvpktinfo_ok)

lemma listening_ports_open_defaults_warnings:
  assumes "no_failures w" "ifs cfg = []" "\<not> (if_automatic cfg \<and> do_udp cfg)"
  shows "warnings (snd (listening_ports_open plat cfg w)) = warnings w"
proof (cases "do_udp cfg \<or> (do_tcp cfg \<and> incoming_num_tcp cfg \<noteq> 0)")
  case True
  then show ?thesis
    using assms
    by (auto simp add: listening_ports_open_def open_defaults_def Let_def split_beta
        ports_create_if_ok ports_create_if_ok_warnings)
next
  case False
  then show ?thesis
    using assms
    by (auto simp add: listening_ports_open_def open_defaults_def Let_def split_beta
        ports_create_if_no_transport)
qed

subsection \<open>Interfaces of a disabled family\<close>

lemma open_ifs_skip_disabled:
  "\<not> if_enabled plat ip4 ip6 ifname \<Longrightarrow>
     open_ifs plat ip4 ip6 dudp dtcp hints prt (ifname # rest) list w =
     open_ifs plat ip4 ip6 dudp dtcp hints prt rest list w"
  by (simp add: if_enabled_def split: if_splits)

lemma open_ifs_enabled:
  "if_enabled plat ip4 ip6 ifname \<Longrightarrow>
     open_ifs plat ip4 ip6 dudp dtcp hints prt (ifname # rest) list w =
     (case ports_create_if plat ifname False dudp dtcp
             (hints\<lparr>ai_family := if str_is_ip6 plat ifname then AF_INET6 else AF_INET\<rparr>)
             prt list w of
        (False, list1, w1) \<Rightarrow> ([], listening_ports_free list1 w1)
      | (True, list1, w1) \<Rightarrow>
          open_ifs plat ip4 ip6 dudp dtcp
            (hints\<lparr>ai_family := if str_is_ip6 plat ifname then AF_INET6 else AF_INET\<rparr>)
            prt rest list1 w1)"
  by (simp add: if_enabled_def split: if_splits)

lemma open_ifs_filter:
  "open_ifs plat ip4 ip6 dudp dtcp hints prt xs list w =
   open_ifs plat ip4 ip6 dudp dtcp hints prt (filter (if_enabled plat ip4 ip6) xs) list w"
proof (induction xs arbitrary: hints list w)
  case Nil
  show ?case by simp
next
  case (Cons x xs)
  show ?case
  proof (cases "if_enabled plat ip4 ip6 x")
    case True
    have f: "filter (if_enabled plat ip4 ip6) (x # xs) = x # filter (if_enabled plat ip4 ip6) xs"
      using True by simp
    show ?thesis
      unfolding f open_ifs_enabled [OF True]
      by (simp add: split_beta Cons.IH [symmetric] split: bool.splits)
  next
    case False
    have f: "filter (if_enabled plat ip4 ip6) (x # xs) = filter (if_enabled plat ip4 ip6) xs"
      using False by simp
    show ?thesis
      unfolding f open_ifs_skip_disabled [OF False] by (rule Cons.IH)
  qed
qed

lemma ports_create_if_step:
  assumes "no_failures w" "dudp \<or> dtcp" "\<forall>p \<in> set list. fd p < next_fd w"
  shows "listening_on (snd (snd (ports_create_if plat ifname False dudp dtcp hints prt list w)))
           (rev (fst (snd (ports_create_if plat ifname False dudp dtcp hints prt list w)))) =
         listening_on w (rev list) @
           (if dudp then [(Some \<lparr>sa_node = ifname, sa_port = prt\<rparr>, listen_type_udp)] else []) @
           (if dtcp then [(Some \<lparr>sa_node = ifname, sa_port = prt\<rparr>, listen_type_tcp)] else [])"
    and "\<forall>p \<in> set (fst (snd (ports_create_if plat ifname False dudp dtcp hints prt list w))).
           fd p < next_fd (snd (snd (ports_create_if plat ifname False dudp dtcp hints prt list w)))"
    and "fd ` set (fst (snd (ports_create_if plat ifname False dudp dtcp hints prt list w))) =
           fd ` set list \<union>
           {next_fd w ..< next_fd (snd (snd (ports_create_if plat ifname False dudp dtcp hints prt list w)))}"
    and "dom (fds (snd (snd (ports_create_if plat ifname False dudp dtcp hints prt list w)))) =
           dom (fds w) \<union>
           {next_fd w ..< next_fd (snd (snd (ports_create_if plat ifname False dudp dtcp hints prt list w)))}"
    and "next_fd w \<le> next_fd (snd (snd (ports_create_if plat ifname False dudp dtcp hints prt list w)))"
    and "distinct (map fd list) \<longrightarrow>
           distinct (map fd (fst (snd (ports_create_if plat ifname False dudp dtcp hints prt list w))))"
  using assms ports_create_if_ok [of w dudp dtcp False plat hints ifname prt list]
  by (auto simp add: listening_on_def)

lemma open_ifs_ok:
  assumes "no_failures w" "dudp \<or> dtcp" "\<forall>p \<in> set list. fd p < next_fd w"
  shows "listening_on (snd (open_ifs plat ip4 ip6 dudp dtcp hints prt xs list w))
           (rev (fst (open_ifs plat ip4 ip6 dudp dtcp hints prt xs list w))) =
         listening_on w (rev list) @
           concat (map (\<lambda>a.
               (if dudp then [(Some \<lparr>sa_node = a, sa_port = prt\<rparr>, listen_type_udp)] else []) @
               (if dtcp then [(Some \<lparr>sa_node = a, sa_port = prt\<rparr>, listen_type_tcp)] else []))
             (filter (if_enabled plat ip4 ip6) xs))
       \<and> (\<forall>p \<in> set (fst (open_ifs plat ip4 ip6 dudp dtcp hints prt xs list w)).
             fd p < next_fd (snd (open_ifs plat ip4 ip6 dudp dtcp hints prt xs list w)))
       \<and> fd ` set (fst (open_ifs plat ip4 ip6 dudp dtcp hints prt xs list w)) =
           fd ` set list \<union>
           {next_fd w ..< next_fd (snd (open_ifs plat ip4 ip6 dudp dtcp hints prt xs list w))}
       \<and> dom (fds (snd (open_ifs plat ip4 ip6 dudp dtcp hints prt xs list w))) =
           dom (fds w) \<union>
           {next_fd w ..< next_fd (snd (open_ifs plat ip4 ip6 dudp dtcp hints prt xs list w))}
       \<and> next_fd w \<le> next_fd (snd (open_ifs plat ip4 ip6 dudp dtcp hints prt xs list w))
       \<and> (distinct (map fd list) \<longrightarrow>
             distinct (map fd (fst (open_ifs plat ip4 ip6 dudp dtcp hints prt xs list w))))
       \<and> warnings (snd (open_ifs plat ip4 ip6 dudp dtcp hints prt xs list w)) = warnings w
       \<and> no_failures (snd (open_ifs plat ip4 ip6 dudp dtcp hints prt xs list w))"
  using assms
proof (induction xs arbitrary: list w hints)
  case Nil
  then show ?case by simp
next
  case (Cons x xs)
  show ?case
  proof (cases "if_enabled plat ip4 ip6 x")
    case False
    show ?thesis
      unfolding open_ifs_skip_disabled [OF False]
      using Cons.IH [OF Cons.prems] False by simp
  next
    case True
    let ?h = "hints\<lparr>ai_family := if str_is_ip6 plat x then AF_INET6 else AF_INET\<rparr>"
    let ?R = "ports_create_if plat x False dudp dtcp ?h prt list w"
    note ok = ports_create_if_ok [of w dudp dtcp False plat ?h x prt list]
    note st = ports_create_if_step [OF Cons.prems, of plat x ?h prt]
    have ok1: "fst ?R" and nf1: "no_failures (snd (snd ?R))"
      and wn: "warnings (snd (snd ?R)) = warnings w"
      using Cons.prems ok(1,3) by (simp_all add: ports_create_if_ok_warnings)
    have e: "open_ifs plat ip4 ip6 dudp dtcp hints prt (x # xs) list w =
        open_ifs plat ip4 ip6 dudp dtcp ?h prt xs (fst (snd ?R)) (snd (snd ?R))"
      unfolding open_ifs_enabled [OF True] using ok1 by (simp add: split_beta)
    note ih = Cons.IH [OF nf1 Cons.prems(2) st(2), of ?h]
    show ?thesis
      unfolding e using ih st True wn by auto
  qed
qed

lemma open_ifs_no_transport:
  "open_ifs plat ip4 ip6 False False hints prt xs [] w = ([], w)"
proof (induction xs arbitrary: hints ip4 ip6)
  case Nil
  show ?case by simp
next
  case (Cons x xs)
  show ?case
    by (simp add: Cons.IH ports_create_if_no_transport)
qed

lemma interface_sockets_no_transport:
  "\<not> do_udp cfg \<Longrightarrow> \<not> (do_tcp cfg \<and> incoming_num_tcp cfg \<noteq> 0) \<Longrightarrow> interface_sockets plat cfg = []"
  by (auto simp add: interface_sockets_def one_per_transport_def)

lemma family_enabled_if_enabled:
  "family_enabled plat cfg = if_enabled plat (do_ip4 cfg) (do_ip6 cfg \<and> have_INET6 plat)"
  by (simp add: family_enabled_def if_enabled_def fun_eq_iff)

lemma listening_ports_open_interfaces:
  assumes "no_failures w" "ifs cfg \<noteq> []"
    "\<not> (if_automatic cfg \<and> do_udp cfg \<and> do_ip4 cfg \<and> do_ip6 cfg \<and> have_INET6 plat)"
  shows "listening_on (snd (listening_ports_open plat cfg w))
           (rev (fst (listening_ports_open plat cfg w))) = interface_sockets plat cfg"
    and "dom (fds (snd (listening_ports_open plat cfg w))) =
           dom (fds w) \<union> fd ` set (fst (listening_ports_open plat cfg w))"
    and "distinct (map fd (fst (listening_ports_open plat cfg w)))"
    and "warnings (snd (listening_ports_open plat cfg w)) =
           warnings w @
           (if if_automatic cfg \<and> do_udp cfg \<and> (do_ip4 cfg \<or> do_ip6 cfg \<and> have_INET6 plat)
            then [Warn_if_automatic] else [])"
proof -
  let ?ip4 = "do_ip4 cfg" and ?ip6 = "do_ip6 cfg \<and> have_INET6 plat"
  let ?tcp = "do_tcp cfg \<and> incoming_num_tcp cfg \<noteq> 0"
  let ?h = "\<lparr>ai_flags = {AI_PASSIVE, AI_NUMERICHOST}, ai_family = AF_UNSPEC, ai_socktype = SOCK_ZERO,
              ai_addr = \<lparr>sa_node = [], sa_port = 0\<rparr>\<rparr>"
  let ?warn = "if_automatic cfg \<and> do_udp cfg \<and> (do_ip4 cfg \<or> do_ip6 cfg \<and> have_INET6 plat)"
  let ?w0 = "if ?warn then log Warn_if_automatic w else w"
  let ?O = "open_ifs plat ?ip4 ?ip6 (do_udp cfg) ?tcp ?h (port cfg) (ifs cfg) [] ?w0"
  let ?goal = "listening_on (snd (listening_ports_open plat cfg w))
           (rev (fst (listening_ports_open plat cfg w))) = interface_sockets plat cfg
    \<and> dom (fds (snd (listening_ports_open plat cfg w))) =
           dom (fds w) \<union> fd ` set (fst (listening_ports_open plat cfg w))
    \<and> distinct (map fd (fst (listening_ports_open plat cfg w)))
    \<and> warnings (snd (listening_ports_open plat cfg w)) =
           warnings w @ (if ?warn then [Warn_if_automatic] else [])"
  have ?goal
  proof (cases "?ip4 \<or> ?ip6")
    case False
    then have "filter (family_enabled plat cfg) (ifs cfg) = []"
      by (auto simp add: family_enabled_def)
    then show ?thesis
      using False by (simp add: listening_ports_open_def Let_def interface_sockets_def listening_on_def)
  next
    case True
    have lpo: "listening_ports_open plat cfg w = ?O"
      using True assms(2,3) by (auto simp add: listening_ports_open_def Let_def)
    have nf0: "no_failures ?w0" and fd0: "fds ?w0 = fds w" and nx0: "next_fd ?w0 = next_fd w"
      and wn0: "warnings ?w0 = warnings w @ (if ?warn then [Warn_if_automatic] else [])"
      using assms(1) by simp_all
    show ?thesis
    proof (cases "do_udp cfg \<or> ?tcp")
      case False
      then have u: "do_udp cfg = False" and t: "?tcp = False"
        by auto
      have "?O = ([], ?w0)"
        unfolding u t by (rule open_ifs_no_transport)
      then show ?thesis
        unfolding lpo using False fd0 wn0
        by (simp add: interface_sockets_no_transport listening_on_def)
    next
      case tr: True
      have e: "one_per_transport cfg listen_type_udp = (\<lambda>a.
               (if do_udp cfg then [(Some \<lparr>sa_node = a, sa_port = port cfg\<rparr>, listen_type_udp)] else []) @
               (if ?tcp then [(Some \<lparr>sa_node = a, sa_port = port cfg\<rparr>, listen_type_tcp)] else []))"
        by (simp add: one_per_transport_def fun_eq_iff)
      note ok = open_ifs_ok [OF nf0 tr, of "[]" plat ?ip4 ?ip6 ?h "port cfg" "ifs cfg"]
      show ?thesis
        unfolding lpo interface_sockets_def family_enabled_if_enabled e
        using ok fd0 nx0 wn0 by (simp add: listening_on_def)
    qed
  qed
  then show "listening_on (snd (listening_ports_open plat cfg w))
           (rev (fst (listening_ports_open plat cfg w))) = interface_sockets plat cfg"
    and "dom (fds (snd (listening_ports_open plat cfg w))) =
           dom (fds w) \<union> fd ` set (fst (listening_ports_open plat cfg w))"
    and "distinct (map fd (fst (listening_ports_open plat cfg w)))"
    and "warnings (snd (listening_ports_open plat cfg w)) =
           warnings w @
           (if if_automatic cfg \<and> do_udp cfg \<and> (do_ip4 cfg \<or> do_ip6 cfg \<and> have_INET6 plat)
            then [Warn_if_automatic] else [])"
    by simp_all
qed

text \<open>
  Claim C10. With a non-empty interface list, an interface whose address family is not
  in use (\<^verbatim>\<open>str_is_ip6\<close> says IPv6 and IPv6 is off, or it says otherwise and IPv4 is off)
  passes through the loop of \<^verbatim>\<open>listening_ports_open\<close> without any effect.
  \<^item> Result and world, so descriptors and log, are those of the same configuration with
    these interfaces deleted, as long as one interface remains; when none remains, nothing
    is opened, nothing but the interface-automatic warning can be logged, and the result
    is \<^verbatim>\<open>NULL\<close>.
  \<^item> Setup goes on with the other interfaces: when no system call fails (and the wildcard
    branch is not taken), the returned list holds, in the order of the configuration, one
    socket per enabled transport bound to each interface whose family is in use, and
    nothing else; the descriptors opened by the call are those on the list, each once;
    and no warning is written but the interface-automatic one.
\<close>

theorem disabled_family_interfaces_skipped:
  assumes "ifs cfg \<noteq> []"
  shows "(filter (family_enabled plat cfg) (ifs cfg) \<noteq> [] \<longrightarrow>
           listening_ports_open plat cfg w =
           listening_ports_open plat (cfg\<lparr>ifs := filter (family_enabled plat cfg) (ifs cfg)\<rparr>) w)
       \<and> (filter (family_enabled plat cfg) (ifs cfg) = [] \<longrightarrow>
           listening_ports_open plat cfg w =
           ([], if (do_ip4 cfg \<or> do_ip6 cfg \<and> have_INET6 plat) \<and> if_automatic cfg \<and> do_udp cfg
                then log Warn_if_automatic w else w))
       \<and> (no_failures w
            \<and> \<not> (if_automatic cfg \<and> do_udp cfg \<and> do_ip4 cfg \<and> do_ip6 cfg \<and> have_INET6 plat) \<longrightarrow>
           listening_on (snd (listening_ports_open plat cfg w))
               (rev (fst (listening_ports_open plat cfg w))) = interface_sockets plat cfg
         \<and> dom (fds (snd (listening_ports_open plat cfg w))) =
               dom (fds w) \<union> fd ` set (fst (listening_ports_open plat cfg w))
         \<and> distinct (map fd (fst (listening_ports_open plat cfg w)))
         \<and> warnings (snd (listening_ports_open plat cfg w)) =
               warnings w @
               (if if_automatic cfg \<and> do_udp cfg \<and> (do_ip4 cfg \<or> do_ip6 cfg \<and> have_INET6 plat)
                then [Warn_if_automatic] else []))"
proof (intro conjI impI)
  let ?en = "if_enabled plat (do_ip4 cfg) (do_ip6 cfg \<and> have_INET6 plat)"
  have en: "family_enabled plat cfg = ?en"
    by (rule family_enabled_if_enabled)
  {
    assume ne: "filter (family_enabled plat cfg) (ifs cfg) \<noteq> []"
    show "listening_ports_open plat cfg w =
           listening_ports_open plat (cfg\<lparr>ifs := filter (family_enabled plat cfg) (ifs cfg)\<rparr>) w"
      using assms ne
        open_ifs_filter [of plat "do_ip4 cfg" "do_ip6 cfg \<and> have_INET6 plat" _ _ _ _ "ifs cfg"]
      unfolding en
      by (simp add: listening_ports_open_def Let_def cong: if_cong)
  }
  {
    assume e: "filter (family_enabled plat cfg) (ifs cfg) = []"
    have dis: "\<not> (do_ip4 cfg \<and> do_ip6 cfg \<and> have_INET6 plat)"
      using assms e unfolding en by (cases "ifs cfg") (auto simp: if_enabled_def split: if_splits)
    show "listening_ports_open plat cfg w =
           ([], if (do_ip4 cfg \<or> do_ip6 cfg \<and> have_INET6 plat) \<and> if_automatic cfg \<and> do_udp cfg
                then log Warn_if_automatic w else w)"
      using assms e dis
        open_ifs_filter [of plat "do_ip4 cfg" "do_ip6 cfg \<and> have_INET6 plat" _ _ _ _ "ifs cfg"]
      unfolding en
      by (auto simp add: listening_ports_open_def Let_def)
  }
  {
    assume a: "no_failures w
            \<and> \<not> (if_automatic cfg \<and> do_udp cfg \<and> do_ip4 cfg \<and> do_ip6 cfg \<and> have_INET6 plat)"
    then have nf: "no_failures w"
      and na: "\<not> (if_automatic cfg \<and> do_udp cfg \<and> do_ip4 cfg \<and> do_ip6 cfg \<and> have_INET6 plat)"
      by simp_all
    show "listening_on (snd (listening_ports_open plat cfg w))
               (rev (fst (listening_ports_open plat cfg w))) = interface_sockets plat cfg"
      by (rule listening_ports_open_interfaces(1) [OF nf assms na])
    show "dom (fds (snd (listening_ports_open plat cfg w))) =
               dom (fds w) \<union> fd ` set (fst (listening_ports_open plat cfg w))"
      by (rule listening_ports_open_interfaces(2) [OF nf assms na])
    show "distinct (map fd (fst (listening_ports_open plat cfg w)))"
      by (rule listening_ports_open_interfaces(3) [OF nf assms na])
    show "warnings (snd (listening_ports_open plat cfg w)) =
               warnings w @
               (if if_automatic cfg \<and> do_udp cfg \<and> (do_ip4 cfg \<or> do_ip6 cfg \<and> have_INET6 plat)
                then [Warn_if_automatic] else [])"
      by (rule listening_ports_open_interfaces(4) [OF nf assms na])
  }
qed

theorem disabled_family_interfaces_skipped_witness:
  "listening_ports_open example_platform cfg_ifs_ip4_only quiet_world =
     listening_ports_open example_platform (cfg_ifs_ip4_only\<lparr>ifs := [''192.0.2.1'']\<rparr>) quiet_world
   \<and> listening_ports_open example_platform cfg_ifs_none_enabled quiet_world = ([], quiet_world)
   \<and> listening_on (snd (listening_ports_open example_platform cfg_ifs_ip4_only quiet_world))
         (rev (fst (listening_ports_open example_platform cfg_ifs_ip4_only quiet_world)))
       = [(Some \<lparr>sa_node = ''192.0.2.1'', sa_port = 53\<rparr>, listen_type_udp),
          (Some \<lparr>sa_node = ''192.0.2.1'', sa_port = 53\<rparr>, listen_type_tcp)]
   \<and> dom (fds (snd (listening_ports_open example_platform cfg_ifs_ip4_only quiet_world)))
       = fd ` set (fst (listening_ports_open example_platform cfg_ifs_ip4_only quiet_world))
   \<and> distinct (map fd (fst (listening_ports_open example_platform cfg_ifs_ip4_only quiet_world)))
   \<and> warnings (snd (listening_ports_open example_platform cfg_ifs_ip4_only quiet_world)) = []"
proof -
  have f1: "filter (family_enabled example_platform cfg_ifs_ip4_only) (ifs cfg_ifs_ip4_only)
              = [''192.0.2.1'']"
    by (simp add: family_enabled_def example_platform_def cfg_ifs_ip4_only_def cfg_default_def)
  have f2: "filter (family_enabled example_platform cfg_ifs_none_enabled)
              (ifs cfg_ifs_none_enabled) = []"
    by (simp add: family_enabled_def example_platform_def cfg_ifs_none_enabled_def
        cfg_default_def)
  have n1: "ifs cfg_ifs_ip4_only \<noteq> []" and n2: "ifs cfg_ifs_none_enabled \<noteq> []"
    by (simp_all add: cfg_ifs_ip4_only_def cfg_ifs_none_enabled_def)
  have i: "\<not> if_automatic cfg_ifs_none_enabled" "\<not> if_automatic cfg_ifs_ip4_only"
    by (simp_all add: cfg_ifs_none_enabled_def cfg_ifs_ip4_only_def cfg_default_def)
  have s: "interface_sockets example_platform cfg_ifs_ip4_only =
       [(Some \<lparr>sa_node = ''192.0.2.1'', sa_port = 53\<rparr>, listen_type_udp),
        (Some \<lparr>sa_node = ''192.0.2.1'', sa_port = 53\<rparr>, listen_type_tcp)]"
    unfolding interface_sockets_def f1
    by (simp add: one_per_transport_def cfg_ifs_ip4_only_def cfg_default_def)
  have w: "warnings quiet_world = []"
    by (simp add: warnings_def)
  have na: "\<not> (if_automatic cfg_ifs_ip4_only \<and> do_udp cfg_ifs_ip4_only \<and> do_ip4 cfg_ifs_ip4_only
               \<and> do_ip6 cfg_ifs_ip4_only \<and> have_INET6 example_platform)"
    using i by simp
  have ne: "filter (family_enabled example_platform cfg_ifs_ip4_only) (ifs cfg_ifs_ip4_only) \<noteq> []"
    unfolding f1 by simp
  note t1 = disabled_family_interfaces_skipped [OF n1, of example_platform quiet_world]
  note t2 = disabled_family_interfaces_skipped [OF n2, of example_platform quiet_world]
  note a = t1 [THEN conjunct1, THEN mp, OF ne, unfolded f1]
  note b = t2 [THEN conjunct2, THEN conjunct1, THEN mp, OF f2]
  note c = t1 [THEN conjunct2, THEN conjunct2, THEN mp, OF conjI [OF quiet_world_no_failures na],
      unfolded s]
  show ?thesis
  proof (intro conjI)
    show "listening_ports_open example_platform cfg_ifs_ip4_only quiet_world =
       listening_ports_open example_platform (cfg_ifs_ip4_only\<lparr>ifs := [''192.0.2.1'']\<rparr>)
         quiet_world"
      by (rule a)
    show "listening_ports_open example_platform cfg_ifs_none_enabled quiet_world = ([], quiet_world)"
      using b i by simp
    show "listening_on (snd (listening_ports_open example_platform cfg_ifs_ip4_only quiet_world))
         (rev (fst (listening_ports_open example_platform cfg_ifs_ip4_only quiet_world)))
       = [(Some \<lparr>sa_node = ''192.0.2.1'', sa_port = 53\<rparr>, listen_type_udp),
          (Some \<lparr>sa_node = ''192.0.2.1'', sa_port = 53\<rparr>, listen_type_tcp)]"
      by (rule c [THEN conjunct1])
    show "dom (fds (snd (listening_ports_open example_platform cfg_ifs_ip4_only quiet_world)))
       = fd ` set (fst (listening_ports_open example_platform cfg_ifs_ip4_only quiet_world))"
      using c [THEN conjunct2, THEN conjunct1] by simp
    show "distinct (map fd (fst (listening_ports_open example_platform cfg_ifs_ip4_only quiet_world)))"
      by (rule c [THEN conjunct2, THEN conjunct2, THEN conjunct1])
    show "warnings (snd (listening_ports_open example_platform cfg_ifs_ip4_only quiet_world)) = []"
      using c [THEN conjunct2, THEN conjunct2, THEN conjunct2] i w by simp
  qed
qed

subsection \<open>Interface-automatic with one address family\<close>

lemma if_automatic_one_family:
  assumes "if_automatic cfg" "do_udp cfg" "do_ip4 cfg \<noteq> (do_ip6 cfg \<and> have_INET6 plat)"
  shows "listening_ports_open plat cfg w =
           listening_ports_open plat (cfg\<lparr>if_automatic := False\<rparr>) (log Warn_if_automatic w)"
  using assms
  by (auto simp add: listening_ports_open_def Let_def cong: if_cong)

lemma default_sockets_if_automatic [simp]:
  "default_sockets plat (cfg\<lparr>if_automatic := b\<rparr>) = default_sockets plat cfg"
  by (simp add: default_sockets_def one_per_transport_def)

lemma interface_sockets_if_automatic [simp]:
  "interface_sockets plat (cfg\<lparr>if_automatic := b\<rparr>) = interface_sockets plat cfg"
proof -
  have "family_enabled plat (cfg\<lparr>if_automatic := b\<rparr>) = family_enabled plat cfg"
    by (simp add: family_enabled_def fun_eq_iff)
  moreover have "one_per_transport (cfg\<lparr>if_automatic := b\<rparr>) = one_per_transport cfg"
    by (simp add: one_per_transport_def fun_eq_iff)
  ultimately show ?thesis
    by (simp add: interface_sockets_def)
qed

lemma interface_sockets_empty:
  "do_udp cfg \<Longrightarrow>
     (interface_sockets plat cfg = []) = (\<forall>a \<in> set (ifs cfg). \<not> family_enabled plat cfg a)"
  by (auto simp add: interface_sockets_def one_per_transport_def)

lemma listening_on_empty [simp]: "(listening_on w list = []) = (list = [])"
  by (simp add: listening_on_def)

text \<open>
  Claim C3, as amended. \<^verbatim>\<open>if_automatic\<close> is on and exactly one of the two address
  families is in use.
  \<^item> With \<^verbatim>\<open>do_udp\<close> on, \<^verbatim>\<open>listening_ports_open\<close> writes the interface-automatic warning,
    drops the option (no socket is tagged \<^verbatim>\<open>listen_type_udpancil\<close>) and then does what it
    does with the option off.
  \<^item> When furthermore no system call fails, that warning is the only one written, and the
    sockets opened are: with no interface configured, the loopback default of the enabled
    family, one per enabled transport; with interfaces configured, one per enabled
    transport on every configured interface of the enabled family, in the order of the
    configuration. So the result is \<^verbatim>\<open>NULL\<close> exactly when interfaces are configured and
    none of them is of the enabled family.
  \<^item> With \<^verbatim>\<open>do_udp\<close> off the option is dropped and no warning is written.

  The claim as stated fails with \<^verbatim>\<open>do_udp\<close> off, where no warning is written, and with
  configured interfaces that are all of the disabled family, where no socket is opened.
\<close>

theorem if_automatic_single_family:
  assumes "if_automatic cfg" "do_ip4 cfg \<noteq> (do_ip6 cfg \<and> have_INET6 plat)"
  shows "(do_udp cfg \<longrightarrow>
            listening_ports_open plat cfg w =
              listening_ports_open plat (cfg\<lparr>if_automatic := False\<rparr>) (log Warn_if_automatic w)
          \<and> Warn_if_automatic \<in> set (warnings (snd (listening_ports_open plat cfg w)))
          \<and> no_ancil (fst (listening_ports_open plat cfg w))
          \<and> (no_failures w \<longrightarrow>
                warnings (snd (listening_ports_open plat cfg w)) = warnings w @ [Warn_if_automatic]
              \<and> listening_on (snd (listening_ports_open plat cfg w))
                    (rev (fst (listening_ports_open plat cfg w))) =
                  (if ifs cfg = [] then default_sockets plat cfg else interface_sockets plat cfg)
              \<and> (fst (listening_ports_open plat cfg w) \<noteq> []) =
                  (ifs cfg = [] \<or> (\<exists>a \<in> set (ifs cfg). family_enabled plat cfg a))))
    \<and> (\<not> do_udp cfg \<longrightarrow>
            listening_ports_open plat cfg w =
              listening_ports_open plat (cfg\<lparr>if_automatic := False\<rparr>) w
          \<and> warnings (snd (listening_ports_open plat cfg w)) = warnings w)"
proof (intro conjI impI)
  let ?cfg = "cfg\<lparr>if_automatic := False\<rparr>"
  let ?w = "log Warn_if_automatic w"
  {
    assume u: "do_udp cfg"
    have eq: "listening_ports_open plat cfg w = listening_ports_open plat ?cfg ?w"
      using assms(1) u assms(2) by (rule if_automatic_one_family)
    show "listening_ports_open plat cfg w = listening_ports_open plat ?cfg ?w"
      by (rule eq)
    have "Warn_if_automatic \<in> set (warnings ?w)"
      by simp
    then show "Warn_if_automatic \<in> set (warnings (snd (listening_ports_open plat cfg w)))"
      unfolding eq by (rule listening_ports_open_keeps_warnings)
    show "no_ancil (fst (listening_ports_open plat cfg w))"
      unfolding eq
      by (simp add: listening_ports_open_def Let_def open_ifs_no_ancil open_defaults_no_ancil)
    {
      assume nf: "no_failures w"
      then have nf': "no_failures ?w"
        by simp
      have na: "\<not> (if_automatic ?cfg \<and> do_udp ?cfg)"
        "\<not> (if_automatic ?cfg \<and> do_udp ?cfg \<and> do_ip4 ?cfg \<and> do_ip6 ?cfg \<and> have_INET6 plat)"
        by simp_all
      have wn: "warnings (snd (listening_ports_open plat ?cfg ?w)) = warnings w @ [Warn_if_automatic]"
      proof (cases "ifs cfg = []")
        case True
        then show ?thesis
          using listening_ports_open_defaults_warnings [OF nf' _ na(1), of plat] by simp
      next
        case False
        then show ?thesis
          using listening_ports_open_interfaces(4) [OF nf' _ na(2)] by simp
      qed
      show "warnings (snd (listening_ports_open plat cfg w)) = warnings w @ [Warn_if_automatic]"
        unfolding eq by (rule wn)
      have lo: "listening_on (snd (listening_ports_open plat ?cfg ?w))
                    (rev (fst (listening_ports_open plat ?cfg ?w))) =
                  (if ifs cfg = [] then default_sockets plat cfg else interface_sockets plat cfg)"
      proof (cases "ifs cfg = []")
        case True
        then show ?thesis
          using listening_ports_open_defaults [OF nf' _ na(1), of plat] by simp
      next
        case False
        then show ?thesis
          using listening_ports_open_interfaces(1) [OF nf' _ na(2)] by simp
      qed
      show "listening_on (snd (listening_ports_open plat cfg w))
                    (rev (fst (listening_ports_open plat cfg w))) =
                  (if ifs cfg = [] then default_sockets plat cfg else interface_sockets plat cfg)"
        unfolding eq by (rule lo)
      have ne: "default_sockets plat cfg \<noteq> []"
        using assms u by (auto simp: default_sockets_def one_per_transport_def)
      have "(fst (listening_ports_open plat ?cfg ?w) \<noteq> []) =
            ((if ifs cfg = [] then default_sockets plat cfg else interface_sockets plat cfg) \<noteq> [])"
        unfolding lo [symmetric] by simp
      then show "(fst (listening_ports_open plat cfg w) \<noteq> []) =
                  (ifs cfg = [] \<or> (\<exists>a \<in> set (ifs cfg). family_enabled plat cfg a))"
        unfolding eq using ne u by (auto simp add: interface_sockets_empty)
    }
  }
  {
    assume u: "\<not> do_udp cfg"
    show "listening_ports_open plat cfg w = listening_ports_open plat ?cfg w"
      using u by (simp add: listening_ports_open_def Let_def cong: if_cong)
    show "warnings (snd (listening_ports_open plat cfg w)) = warnings w"
      using u
      by (simp add: listening_ports_open_def Let_def open_ifs_tcp_only_warnings
          open_defaults_tcp_only_warnings)
  }
qed

text \<open>
  With \<^verbatim>\<open>if_automatic\<close> on, IPv4 only and \<^verbatim>\<open>do_udp\<close> off, the TCP socket is opened and
  the log stays empty. With \<^verbatim>\<open>if_automatic\<close> and \<^verbatim>\<open>do_udp\<close> on, IPv4 only and the one
  configured interface \<^verbatim>\<open>::1\<close>, no call fails, the warning is written, and the result is
  \<^verbatim>\<open>NULL\<close> with no descriptor open.
\<close>

theorem if_automatic_single_family_counterexample:
  "if_automatic cfg_auto_tcp_ip4 \<and> do_ip4 cfg_auto_tcp_ip4 \<and> \<not> do_ip6 cfg_auto_tcp_ip4
   \<and> fst (listening_ports_open example_platform cfg_auto_tcp_ip4 quiet_world)
       = [\<lparr>fd = 3, ftype = listen_type_tcp\<rparr>]
   \<and> logs (snd (listening_ports_open example_platform cfg_auto_tcp_ip4 quiet_world)) = []
   \<and> if_automatic cfg_auto_ip4_none \<and> do_ip4 cfg_auto_ip4_none \<and> \<not> do_ip6 cfg_auto_ip4_none
   \<and> fst (listening_ports_open example_platform cfg_auto_ip4_none quiet_world) = []
   \<and> dom (fds (snd (listening_ports_open example_platform cfg_auto_ip4_none quiet_world))) = {}
   \<and> logs (snd (listening_ports_open example_platform cfg_auto_ip4_none quiet_world))
       = [Warn_if_automatic]"
  by (simp add: listener_defs cfg_auto_tcp_ip4_def cfg_auto_ip4_none_def cfg_auto_ip4_def
      cfg_default_def example_platform_def)

theorem if_automatic_single_family_witness:
  "listening_ports_open example_platform cfg_auto_ip4 quiet_world =
     listening_ports_open example_platform (cfg_auto_ip4\<lparr>if_automatic := False\<rparr>)
       (log Warn_if_automatic quiet_world)
   \<and> warnings (snd (listening_ports_open example_platform cfg_auto_ip4 quiet_world))
       = [Warn_if_automatic]
   \<and> listening_on (snd (listening_ports_open example_platform cfg_auto_ip4 quiet_world))
         (rev (fst (listening_ports_open example_platform cfg_auto_ip4 quiet_world)))
       = [(Some \<lparr>sa_node = ''127.0.0.1'', sa_port = 53\<rparr>, listen_type_udp),
          (Some \<lparr>sa_node = ''127.0.0.1'', sa_port = 53\<rparr>, listen_type_tcp)]
   \<and> warnings (snd (listening_ports_open example_platform cfg_auto_ip4_ifs quiet_world))
       = [Warn_if_automatic]
   \<and> listening_on (snd (listening_ports_open example_platform cfg_auto_ip4_ifs quiet_world))
         (rev (fst (listening_ports_open example_platform cfg_auto_ip4_ifs quiet_world)))
       = [(Some \<lparr>sa_node = ''192.0.2.1'', sa_port = 53\<rparr>, listen_type_udp),
          (Some \<lparr>sa_node = ''192.0.2.1'', sa_port = 53\<rparr>, listen_type_tcp)]
   \<and> fst (listening_ports_open example_platform cfg_auto_ip4_none quiet_world) = []
   \<and> listening_ports_open example_platform cfg_auto_tcp_ip4 quiet_world =
       listening_ports_open example_platform (cfg_auto_tcp_ip4\<lparr>if_automatic := False\<rparr>) quiet_world"
proof -
  have h: "if_automatic cfg_auto_ip4"
    "do_ip4 cfg_auto_ip4 \<noteq> (do_ip6 cfg_auto_ip4 \<and> have_INET6 example_platform)"
    "if_automatic cfg_auto_ip4_ifs"
    "do_ip4 cfg_auto_ip4_ifs \<noteq> (do_ip6 cfg_auto_ip4_ifs \<and> have_INET6 example_platform)"
    "if_automatic cfg_auto_ip4_none"
    "do_ip4 cfg_auto_ip4_none \<noteq> (do_ip6 cfg_auto_ip4_none \<and> have_INET6 example_platform)"
    "if_automatic cfg_auto_tcp_ip4"
    "do_ip4 cfg_auto_tcp_ip4 \<noteq> (do_ip6 cfg_auto_tcp_ip4 \<and> have_INET6 example_platform)"
    by (simp_all add: cfg_auto_ip4_def cfg_auto_ip4_ifs_def cfg_auto_ip4_none_def
        cfg_auto_tcp_ip4_def cfg_default_def)
  have c: "do_udp cfg_auto_ip4" "ifs cfg_auto_ip4 = []"
    "do_udp cfg_auto_ip4_ifs" "ifs cfg_auto_ip4_ifs = [''::1'', ''192.0.2.1'']"
    "do_udp cfg_auto_ip4_none" "ifs cfg_auto_ip4_none = [''::1'']"
    "\<not> do_udp cfg_auto_tcp_ip4"
    by (simp_all add: cfg_auto_ip4_def cfg_auto_ip4_ifs_def cfg_auto_ip4_none_def
        cfg_auto_tcp_ip4_def cfg_default_def)
  have d: "default_sockets example_platform cfg_auto_ip4 =
       [(Some \<lparr>sa_node = ''127.0.0.1'', sa_port = 53\<rparr>, listen_type_udp),
        (Some \<lparr>sa_node = ''127.0.0.1'', sa_port = 53\<rparr>, listen_type_tcp)]"
    "interface_sockets example_platform cfg_auto_ip4_ifs =
       [(Some \<lparr>sa_node = ''192.0.2.1'', sa_port = 53\<rparr>, listen_type_udp),
        (Some \<lparr>sa_node = ''192.0.2.1'', sa_port = 53\<rparr>, listen_type_tcp)]"
    "\<not> family_enabled example_platform cfg_auto_ip4_none ''::1''"
    by (simp_all add: default_sockets_def interface_sockets_def one_per_transport_def
        family_enabled_def cfg_auto_ip4_def cfg_auto_ip4_ifs_def cfg_auto_ip4_none_def
        cfg_default_def example_platform_def)
  have w: "warnings quiet_world = []"
    by (simp add: warnings_def)
  note t1 = if_automatic_single_family [OF h(1,2), of quiet_world, THEN conjunct1, THEN mp, OF c(1)]
  note t2 = if_automatic_single_family [OF h(3,4), of quiet_world, THEN conjunct1, THEN mp, OF c(3)]
  note t3 = if_automatic_single_family [OF h(5,6), of quiet_world, THEN conjunct1, THEN mp, OF c(5)]
  note t4 = if_automatic_single_family [OF h(7,8), of quiet_world, THEN conjunct2, THEN mp, OF c(7)]
  note n1 = t1 [THEN conjunct2, THEN conjunct2, THEN conjunct2, THEN mp, OF quiet_world_no_failures]
  note n2 = t2 [THEN conjunct2, THEN conjunct2, THEN conjunct2, THEN mp, OF quiet_world_no_failures]
  note n3 = t3 [THEN conjunct2, THEN conjunct2, THEN conjunct2, THEN mp, OF quiet_world_no_failures]
  show ?thesis
  proof (intro conjI)
    show "listening_ports_open example_platform cfg_auto_ip4 quiet_world =
       listening_ports_open example_platform (cfg_auto_ip4\<lparr>if_automatic := False\<rparr>)
         (log Warn_if_automatic quiet_world)"
      by (rule t1 [THEN conjunct1])
    show "warnings (snd (listening_ports_open example_platform cfg_auto_ip4 quiet_world))
       = [Warn_if_automatic]"
      using n1 [THEN conjunct1] w by simp
    show "listening_on (snd (listening_ports_open example_platform cfg_auto_ip4 quiet_world))
         (rev (fst (listening_ports_open example_platform cfg_auto_ip4 quiet_world)))
       = [(Some \<lparr>sa_node = ''127.0.0.1'', sa_port = 53\<rparr>, listen_type_udp),
          (Some \<lparr>sa_node = ''127.0.0.1'', sa_port = 53\<rparr>, listen_type_tcp)]"
      using n1 [THEN conjunct2, THEN conjunct1] c(2) d(1) by simp
    show "warnings (snd (listening_ports_open example_platform cfg_auto_ip4_ifs quiet_world))
       = [Warn_if_automatic]"
      using n2 [THEN conjunct1] w by simp
    show "listening_on (snd (listening_ports_open example_platform cfg_auto_ip4_ifs quiet_world))
         (rev (fst (listening_ports_open example_platform cfg_auto_ip4_ifs quiet_world)))
       = [(Some \<lparr>sa_node = ''192.0.2.1'', sa_port = 53\<rparr>, listen_type_udp),
          (Some \<lparr>sa_node = ''192.0.2.1'', sa_port = 53\<rparr>, listen_type_tcp)]"
      using n2 [THEN conjunct2, THEN conjunct1] c(4) d(2) by simp
    show "fst (listening_ports_open example_platform cfg_auto_ip4_none quiet_world) = []"
      using n3 [THEN conjunct2, THEN conjunct2] c(6) d(3) by simp
    show "listening_ports_open example_platform cfg_auto_tcp_ip4 quiet_world =
       listening_ports_open example_platform (cfg_auto_tcp_ip4\<lparr>if_automatic := False\<rparr>) quiet_world"
      by (rule t4 [THEN conjunct1])
  qed
qed

subsection \<open>Descriptors left open on failure\<close>

lemma tcp_bind_refused_world_simps [simp]:
  "outcome k i tcp_bind_refused_world = (if k = K_bind \<and> i = 0 then Some EADDRINUSE else None)"
  "logs tcp_bind_refused_world = []"
  "next_fd tcp_bind_refused_world = 3"
  "fds tcp_bind_refused_world = Map.empty"
  by (simp_all add: outcome_def tcp_bind_refused_world_def quiet_world_def)

lemma pktinfo_refused_world_simps [simp]:
  "outcome k i pktinfo_refused_world =
     (if k = K_setsockopt \<and> i = 1 then Some ENOPROTOOPT else None)"
  "logs pktinfo_refused_world = []"
  "next_fd pktinfo_refused_world = 3"
  "fds pktinfo_refused_world = Map.empty"
  by (auto simp add: outcome_def pktinfo_refused_world_def quiet_world_def nth_Cons split: nat.splits)

text \<open>
  Claim C1. The claim holds the code to closing every descriptor it opened when setup
  fails. Two runs of the code that do not: a \<^verbatim>\<open>bind\<close> failure inside
  \<^verbatim>\<open>create_tcp_accept_sock\<close>, and a \<^verbatim>\<open>setsockopt\<close> failure inside \<^verbatim>\<open>set_recvpktinfo\<close>.
  Both return \<^verbatim>\<open>NULL\<close> and leave descriptor 3, opened during the call, open.
\<close>

theorem listening_ports_open_leaks_descriptor:
  "fst (listening_ports_open example_platform cfg_tcp_ip4 tcp_bind_refused_world) = []
   \<and> dom (fds tcp_bind_refused_world) = {}
   \<and> dom (fds (snd (listening_ports_open example_platform cfg_tcp_ip4 tcp_bind_refused_world))) = {3}
   \<and> fst (listening_ports_open example_platform cfg_auto pktinfo_refused_world) = []
   \<and> dom (fds pktinfo_refused_world) = {}
   \<and> dom (fds (snd (listening_ports_open example_platform cfg_auto pktinfo_refused_world))) = {3}"
  by (simp add: listener_defs cfg_tcp_ip4_def cfg_auto_def cfg_default_def example_platform_def)

theorem listening_ports_open_leaks_descriptor_witness:
  "dom (fds (snd (listening_ports_open example_platform cfg_tcp_ip4 tcp_bind_refused_world)))
     \<noteq> dom (fds tcp_bind_refused_world)
   \<and> dom (fds (snd (listening_ports_open example_platform cfg_auto pktinfo_refused_world)))
     \<noteq> dom (fds pktinfo_refused_world)"
  using listening_ports_open_leaks_descriptor by simp

subsection \<open>A single failing call\<close>



lemma only_failure_upd [simp]:
  "only_failure k n e (w\<lparr>fds := f\<rparr>) = only_failure k n e w"
  "only_failure k n e (w\<lparr>logs := l\<rparr>) = only_failure k n e w"
  "only_failure k n e (w\<lparr>next_fd := x\<rparr>) = only_failure k n e w"
  by (simp_all add: only_failure_def outcome_upd)

lemma only_failure_no_failures:
  "(\<And>k' i. outcome k' i w' = outcome k' (if k' = k then Suc i else i) w) \<Longrightarrow>
     only_failure k 0 e w \<Longrightarrow> no_failures w'"
  by (simp add: only_failure_def no_failures_def)



















lemma verbose_print_addr_str_is_ip6 [simp]:
  "verbose_print_addr (plat\<lparr>str_is_ip6 := f\<rparr>) = verbose_print_addr plat"
  by (simp add: verbose_print_addr_def fun_eq_iff)

lemma create_udp_sock_str_is_ip6 [simp]:
  "create_udp_sock (plat\<lparr>str_is_ip6 := f\<rparr>) = create_udp_sock plat"
  by (simp add: create_udp_sock_def fun_eq_iff
      cong: sum.case_cong option.case_cong bool.case_cong prod.case_cong if_cong)

lemma create_tcp_accept_sock_str_is_ip6 [simp]:
  "create_tcp_accept_sock (plat\<lparr>str_is_ip6 := f\<rparr>) = create_tcp_accept_sock plat"
  by (simp add: create_tcp_accept_sock_def fun_eq_iff
      cong: sum.case_cong option.case_cong bool.case_cong prod.case_cong if_cong)

lemma make_sock_str_is_ip6 [simp]:
  "make_sock (plat\<lparr>str_is_ip6 := f\<rparr>) = make_sock plat"
  by (simp add: make_sock_def fun_eq_iff
      cong: sum.case_cong option.case_cong bool.case_cong prod.case_cong if_cong)

lemma set_recvpktinfo_str_is_ip6 [simp]:
  "set_recvpktinfo (plat\<lparr>str_is_ip6 := f\<rparr>) = set_recvpktinfo plat"
  by (simp add: set_recvpktinfo_def fun_eq_iff
      cong: sum.case_cong option.case_cong bool.case_cong prod.case_cong if_cong)

lemma ports_create_if_tcp_str_is_ip6 [simp]:
  "ports_create_if_tcp (plat\<lparr>str_is_ip6 := f\<rparr>) = ports_create_if_tcp plat"
  by (simp add: ports_create_if_tcp_def fun_eq_iff
      cong: sum.case_cong option.case_cong bool.case_cong prod.case_cong if_cong)

lemma ports_create_if_str_is_ip6 [simp]:
  "ports_create_if (plat\<lparr>str_is_ip6 := f\<rparr>) = ports_create_if plat"
  by (simp add: ports_create_if_def fun_eq_iff
      cong: sum.case_cong option.case_cong bool.case_cong prod.case_cong if_cong)






subsection \<open>Failures of socket and bind on an IPv6 address\<close>

lemma failure_kind_transfer [simp]:
  "ip6_unavailable (snd (sys_getaddrinfo n p h w)) = ip6_unavailable w"
  "ip6_unavailable (verbose_print_addr plat ai w) = ip6_unavailable w"
  "socket_or_bind_refused (snd (sys_getaddrinfo n p h w)) = socket_or_bind_refused w"
  "socket_or_bind_refused (verbose_print_addr plat ai w) = socket_or_bind_refused w"
  by (simp_all add: ip6_unavailable_def socket_or_bind_refused_def)

















lemma ip6_unsupported_world_simps [simp]:
  "outcome k i ip6_unsupported_world = (if k = K_socket \<and> i = 0 then Some EAFNOSUPPORT else None)"
  "logs ip6_unsupported_world = []"
  "next_fd ip6_unsupported_world = 3"
  "fds ip6_unsupported_world = Map.empty"
  by (simp_all add: outcome_def ip6_unsupported_world_def quiet_world_def)

lemma tcp_after_udp_refused_world_simps [simp]:
  "outcome k i tcp_after_udp_refused_world =
     (if k = K_bind \<and> i = 1 then Some EADDRINUSE else None)"
  "logs tcp_after_udp_refused_world = []"
  "next_fd tcp_after_udp_refused_world = 3"
  "fds tcp_after_udp_refused_world = Map.empty"
  by (auto simp add: outcome_def tcp_after_udp_refused_world_def quiet_world_def nth_Cons
      split: nat.splits)

lemma tcp_after_udp_unsupported_world_simps [simp]:
  "outcome k i tcp_after_udp_unsupported_world =
     (if k = K_socket \<and> i = 1 then Some EAFNOSUPPORT else None)"
  "logs tcp_after_udp_unsupported_world = []"
  "next_fd tcp_after_udp_unsupported_world = 3"
  "fds tcp_after_udp_unsupported_world = Map.empty"
  by (auto simp add: outcome_def tcp_after_udp_unsupported_world_def quiet_world_def nth_Cons
      split: nat.splits)

lemma third_socket_unsupported_world_simps [simp]:
  "outcome k i third_socket_unsupported_world =
     (if k = K_socket \<and> i = 2 then Some EAFNOSUPPORT else None)"
  "logs third_socket_unsupported_world = []"
  "next_fd third_socket_unsupported_world = 3"
  "fds third_socket_unsupported_world = Map.empty"
  by (auto simp add: outcome_def third_socket_unsupported_world_def quiet_world_def nth_Cons
      split: nat.splits)





section \<open>Properties of pausing and resuming\<close>

lemma pushback_loop_eq:
  "pushback_loop ps h =
     (\<lambda>a. if a \<in> set ps \<and> (com_type (h a) = comm_udp \<or> com_type (h a) = comm_tcp_accept)
          then (h a)\<lparr>listening := False\<rparr> else h a)"
proof (induction ps arbitrary: h)
  case Nil
  show ?case by simp
next
  case (Cons p ps)
  show ?case
    by (auto simp add: Cons.IH fun_eq_iff comm_point_stop_listening_def)
qed

lemma resume_loop_eq:
  "resume_loop ps h =
     (\<lambda>a. if a \<in> set ps \<and> (com_type (h a) = comm_udp \<or> com_type (h a) = comm_tcp_accept)
          then (h a)\<lparr>listening := True\<rparr> else h a)"
proof (induction ps arbitrary: h)
  case Nil
  show ?case by simp
next
  case (Cons p ps)
  show ?case
    by (auto simp add: Cons.IH fun_eq_iff comm_point_start_listening_def)
qed

text \<open>
  Claim C6. \<^verbatim>\<open>listen_pushback\<close> stops listening on the comm points of the list whose
  type is \<^verbatim>\<open>comm_udp\<close> or \<^verbatim>\<open>comm_tcp_accept\<close> and changes no other comm point, on the
  list or elsewhere in the store (the comm points of accepted TCP connections among
  them); \<^verbatim>\<open>listen_resume\<close> starts listening on the same comm points and changes no
  other; the set is the same after a pushback as before it.
\<close>

theorem pushback_resume_frame:
  "listen_pushback listen h =
     (\<lambda>a. if a \<in> accepting_points listen h then (h a)\<lparr>listening := False\<rparr> else h a)
   \<and> listen_resume listen h =
     (\<lambda>a. if a \<in> accepting_points listen h then (h a)\<lparr>listening := True\<rparr> else h a)
   \<and> accepting_points listen (listen_pushback listen h) = accepting_points listen h
   \<and> listen_resume listen (listen_pushback listen h) = listen_resume listen h"
proof -
  have p: "listen_pushback listen h =
      (\<lambda>a. if a \<in> accepting_points listen h then (h a)\<lparr>listening := False\<rparr> else h a)"
    by (simp add: listen_pushback_def pushback_loop_eq accepting_points_def)
  have r: "listen_resume listen h' =
      (\<lambda>a. if a \<in> accepting_points listen h' then (h' a)\<lparr>listening := True\<rparr> else h' a)" for h'
    by (simp add: listen_resume_def resume_loop_eq accepting_points_def)
  have s: "accepting_points listen (listen_pushback listen h) = accepting_points listen h"
    unfolding p by (auto simp add: accepting_points_def)
  have rp: "listen_resume listen (listen_pushback listen h) = listen_resume listen h"
    unfolding r s unfolding p by (auto simp add: fun_eq_iff)
  from p r s rp show ?thesis by blast
qed

theorem pushback_resume_frame_witness:
  "map (\<lambda>a. listening (listen_pushback example_listen example_store a)) [0, 1, 2, 3, 4, 5]
     = [False, False, False, False, True, True]
   \<and> accepting_points example_listen example_store = {0, 1, 2, 3}
   \<and> listen_resume example_listen (listen_pushback example_listen example_store) = example_store"
proof -
  have a: "accepting_points example_listen example_store = {0, 1, 2, 3}"
    by (auto simp add: accepting_points_def example_listen_def example_store_def)
  note T = pushback_resume_frame [of example_listen example_store]
  have p: "listen_pushback example_listen example_store =
      (\<lambda>a. if a \<in> {0, 1, 2, 3} then (example_store a)\<lparr>listening := False\<rparr> else example_store a)"
    using T unfolding a by blast
  have m: "map (\<lambda>a. listening (listen_pushback example_listen example_store a)) [0, 1, 2, 3, 4, 5]
     = [False, False, False, False, True, True]"
    unfolding p by (simp add: example_store_def)
  have r: "listen_resume example_listen example_store =
      (\<lambda>a. if a \<in> {0, 1, 2, 3} then (example_store a)\<lparr>listening := True\<rparr> else example_store a)"
    using T unfolding a by blast
  have e: "listen_resume example_listen example_store = example_store"
    unfolding r by (auto simp add: fun_eq_iff example_store_def)
  have rp: "listen_resume example_listen (listen_pushback example_listen example_store) = example_store"
    using T e by metis
  from m a rp show ?thesis by blast
qed

section \<open>Properties of the mesh\<close>

subsection \<open>Attaching a sub-query twice\<close>

lemma rbtree_insert_idem: "k \<in> set xs \<Longrightarrow> rbtree_insert k xs = xs"
  by (simp add: rbtree_insert_def)

lemma set_rbtree_insert [simp]: "set (rbtree_insert k xs) = insert k (set xs)"
  by (auto simp: rbtree_insert_def set_insort_key)

lemma map_of_update:
  "map_of (map (\<lambda>(k', st). if k' = k then (k', f st) else (k', st)) al) k' =
     (if k' = k then map_option f (map_of al k) else map_of al k')"
  by (induction al) auto

lemma mesh_area_find_update [simp]:
  "mesh_area_find (mesh_state_update k f mesh) k' =
     (if k' = k then map_option f (mesh_area_find mesh k) else mesh_area_find mesh k')"
  by (simp add: mesh_area_find_def mesh_state_update_def map_of_update)

lemma map_of_insort_key:
  "k \<notin> fst ` set al \<Longrightarrow> map_of (insort_key fst (k, st) al) k' = (if k' = k then Some st else map_of al k')"
  by (induction al) (auto simp: image_iff)

lemma mesh_area_find_insert:
  "mesh_area_find (mesh_area_insert k st mesh) k' =
     (if k' = k \<and> mesh_area_find mesh k = None then Some st else mesh_area_find mesh k')"
  by (auto simp add: mesh_area_find_def mesh_area_insert_def map_of_insort_key
      map_of_eq_None_iff)


lemma subs_of_update:
  "subs_of (all (mesh_state_update k f mesh)) k' =
     (if k' = k then (case mesh_area_find mesh k of None \<Rightarrow> [] | Some st \<Rightarrow> sub_set (f st))
      else subs_of (all mesh) k')"
  using mesh_area_find_update [of k f mesh k']
  by (auto simp add: subs_of_def mesh_area_find_def split: option.splits)

lemma subs_of_insert_create:
  "subs_of (all (mesh_area_insert k mesh_state_create mesh)) k' = subs_of (all mesh) k'"
  using mesh_area_find_insert [of k mesh_state_create mesh k']
  by (auto simp add: subs_of_def mesh_area_find_def mesh_state_create_def split: option.splits)

lemma subs_of_attachment:
  "k \<noteq> super \<Longrightarrow>
     subs_of (all (mesh_state_attachment super sub mesh)) k = subs_of (all mesh) k"
proof -
  assume "k \<noteq> super"
  then have "subs_of (all (mesh_state_attachment super sub mesh)) k =
      (if k = sub then (case mesh_area_find mesh sub of None \<Rightarrow> [] | Some st \<Rightarrow> sub_set st)
       else subs_of (all mesh) k)"
    by (simp add: mesh_state_attachment_def subs_of_update cong: option.case_cong)
  also have "\<dots> = subs_of (all mesh) k"
    by (simp add: subs_of_def mesh_area_find_def)
  finally show ?thesis .
qed

lemma find_in_subsub_cong:
  assumes "\<And>k. k \<noteq> t \<Longrightarrow> subs_of al' k = subs_of al k"
  shows "find_in_subsub al' t stack vis = find_in_subsub al t stack vis"
  using assms
proof (induction al t stack vis rule: find_in_subsub.induct)
  case (1 al t vis)
  show ?case by simp
next
  case (2 al t k stack vis)
  show ?case
  proof (cases "k = t")
    case True
    then show ?thesis by simp
  next
    case False
    note kt = this
    show ?thesis
    proof (cases "k \<in> vis")
      case True
      then show ?thesis
        using kt "2.IH"(1) [OF kt True "2.prems"] by simp
    next
      case False
      then show ?thesis
        using kt "2.IH"(2) [OF kt False "2.prems"] "2.prems" [OF kt] by simp
    qed
  qed
qed


lemma mesh_state_update_twice:
  "mesh_state_update k f (mesh_state_update k g mesh) = mesh_state_update k (f \<circ> g) mesh"
proof -
  have "map (\<lambda>(k', st). if k' = k then (k', f st) else (k', st))
          (map (\<lambda>(k', st). if k' = k then (k', g st) else (k', st)) al) =
        map (\<lambda>(k', st). if k' = k then (k', (f \<circ> g) st) else (k', st)) al" for al
    by (induction al) auto
  then show ?thesis
    by (simp add: mesh_state_update_def del: map_map)
qed

lemma mesh_state_update_commute:
  assumes "k \<noteq> k'"
  shows "mesh_state_update k f (mesh_state_update k' g mesh) =
     mesh_state_update k' g (mesh_state_update k f mesh)"
proof -
  have "map (\<lambda>(j, st). if j = k then (j, f st) else (j, st))
          (map (\<lambda>(j, st). if j = k' then (j, g st) else (j, st)) al) =
        map (\<lambda>(j, st). if j = k' then (j, g st) else (j, st))
          (map (\<lambda>(j, st). if j = k then (j, f st) else (j, st)) al)" for al
    using assms by (induction al) auto
  then show ?thesis
    by (simp add: mesh_state_update_def del: map_map)
qed

lemma mesh_state_attachment_idem:
  assumes "super \<noteq> sub"
  shows "mesh_state_attachment super sub (mesh_state_attachment super sub mesh) =
         mesh_state_attachment super sub mesh"
proof -
  have f: "(\<lambda>st. st\<lparr>sub_set := rbtree_insert sub (sub_set st)\<rparr>) \<circ>
           (\<lambda>st. st\<lparr>sub_set := rbtree_insert sub (sub_set st)\<rparr>) =
           (\<lambda>st. st\<lparr>sub_set := rbtree_insert sub (sub_set st)\<rparr>)"
    by (simp add: fun_eq_iff rbtree_insert_idem)
  have g: "(\<lambda>st. st\<lparr>super_set := rbtree_insert super (super_set st)\<rparr>) \<circ>
           (\<lambda>st. st\<lparr>super_set := rbtree_insert super (super_set st)\<rparr>) =
           (\<lambda>st. st\<lparr>super_set := rbtree_insert super (super_set st)\<rparr>)"
    by (simp add: fun_eq_iff rbtree_insert_idem)
  show ?thesis
    unfolding mesh_state_attachment_def
    by (simp add: mesh_state_update_commute [OF assms [symmetric]] mesh_state_update_twice f g)
qed

lemma mesh_state_attachment_counter:
  "mesh_state_attachment super sub (mesh\<lparr>num_detached_states := c\<rparr>) =
     (mesh_state_attachment super sub mesh)\<lparr>num_detached_states := c\<rparr>"
  by (simp add: mesh_state_attachment_def mesh_state_update_def)

lemma mesh_area_find_attachment:
  "super \<noteq> sub \<Longrightarrow>
     mesh_area_find (mesh_state_attachment super sub mesh) sub =
       map_option (\<lambda>st. st\<lparr>super_set := rbtree_insert super (super_set st)\<rparr>)
         (mesh_area_find mesh sub)"
  by (simp add: mesh_state_attachment_def)

lemma mesh_detect_cycle_self: "mesh_detect_cycle mesh k k"
  by (simp add: mesh_detect_cycle_def)

lemma mesh_detect_cycle_after:
  assumes "all mesh1 = all (mesh_state_attachment super sub mesh0)"
    and "\<And>k. subs_of (all mesh0) k = subs_of (all mesh) k"
  shows "mesh_detect_cycle mesh1 super sub = mesh_detect_cycle mesh super sub"
  unfolding mesh_detect_cycle_def assms(1)
  by (rule find_in_subsub_cong) (simp add: subs_of_attachment assms(2))

text \<open>
  Claim C7. After a successful \<open>attach_sub(P, K)\<close>, a second \<open>attach_sub(P, K)\<close>
  succeeds, reports that the sub-state exists (\<open>out_newq\<close> is none) and returns the mesh
  it was given: no state, edge or counter is changed. It does so whether or not memory
  can be had.
\<close>

theorem attach_sub_twice:
  assumes "mesh_attach_sub alloc_ok mesh parent sub_key = (Inr newq, mesh1)"
  shows "mesh_attach_sub alloc_ok' mesh1 parent sub_key = (Inr None, mesh1)"
proof -
  have nc: "\<not> mesh_detect_cycle mesh parent sub_key"
    using assms by (auto simp add: mesh_attach_sub_def split: if_splits)
  then have ne: "parent \<noteq> sub_key"
    using mesh_detect_cycle_self by auto
  obtain mesh0 c sub0 where
    m1: "mesh1 = (mesh_state_attachment parent sub_key mesh0)\<lparr>num_detached_states := c\<rparr>"
    and subs: "\<And>k. subs_of (all mesh0) k = subs_of (all mesh) k"
    and f0: "mesh_area_find mesh0 sub_key = Some sub0"
  proof (cases "mesh_area_find mesh sub_key")
    case None
    let ?m0 = "mesh_area_insert sub_key mesh_state_create mesh"
    have a: "mesh1 = (mesh_state_attachment parent sub_key ?m0)
        \<lparr>num_detached_states := num_detached_states (mesh_state_attachment parent sub_key ?m0)\<rparr>"
      using assms nc None by (auto simp add: mesh_attach_sub_def split: if_splits)
    have b: "mesh_area_find ?m0 sub_key = Some mesh_state_create"
      using None by (simp add: mesh_area_find_insert)
    show ?thesis
      by (rule that [OF a subs_of_insert_create b])
  next
    case (Some sub)
    have "\<exists>c. mesh1 = (mesh_state_attachment parent sub_key mesh)\<lparr>num_detached_states := c\<rparr>"
    proof (cases "parent \<in> set (super_set sub)")
      case True
      then have "mesh1 = (mesh_state_attachment parent sub_key mesh)
        \<lparr>num_detached_states := num_detached_states (mesh_state_attachment parent sub_key mesh)\<rparr>"
        using assms nc Some by (auto simp add: mesh_attach_sub_def)
      then show ?thesis by blast
    next
      case False
      then show ?thesis
        using assms nc Some by (auto simp add: mesh_attach_sub_def split: if_splits)
    qed
    then obtain c where a: "mesh1 = (mesh_state_attachment parent sub_key mesh)\<lparr>num_detached_states := c\<rparr>"
      by blast
    show ?thesis
      by (rule that [OF a refl Some])
  qed
  have all1: "all mesh1 = all (mesh_state_attachment parent sub_key mesh0)"
    unfolding m1 by simp
  have nc1: "\<not> mesh_detect_cycle mesh1 parent sub_key"
    using mesh_detect_cycle_after [OF all1 subs] nc by simp
  have f1: "mesh_area_find mesh1 sub_key =
      Some (sub0\<lparr>super_set := rbtree_insert parent (super_set sub0)\<rparr>)"
    using mesh_area_find_attachment [OF ne, of mesh0] f0 all1
    by (simp add: mesh_area_find_def)
  have idem: "mesh_state_attachment parent sub_key mesh1 = mesh1"
    unfolding m1 by (simp add: mesh_state_attachment_counter mesh_state_attachment_idem [OF ne])
  show ?thesis
    using nc1 f1 idem by (simp add: mesh_attach_sub_def)
qed


theorem attach_sub_twice_witness:
  "mesh_attach_sub True example_mesh 1 2 = (Inr (Some 2), example_mesh_attached)
   \<and> mesh_attach_sub False example_mesh_attached 1 2 = (Inr None, example_mesh_attached)"
proof -
  have h: "mesh_attach_sub True example_mesh 1 2 = (Inr (Some 2), example_mesh_attached)"
    by (simp add: mesh_attach_sub_def mesh_detect_cycle_def subs_of_def mesh_area_find_def
        mesh_area_insert_def mesh_state_create_def mesh_state_attachment_def
        mesh_state_update_def rbtree_insert_def example_mesh_def example_mesh_attached_def)
  show ?thesis
    using h attach_sub_twice [OF h, of False] by simp
qed


subsection \<open>Completion and the run set\<close>

lemma run_mesh_state_update [simp]: "run (mesh_state_update k f mesh) = run mesh"
  by (simp add: mesh_state_update_def)

lemma run_detach_one [simp]: "run (detach_one m sub mesh) = run mesh"
  by (simp add: detach_one_def split: option.splits)

lemma run_fold_detach_one [simp]: "run (fold (detach_one m) subs mesh) = run mesh"
  by (induction subs arbitrary: mesh) simp_all

lemma run_mesh_detach_subs [simp]: "run (mesh_detach_subs mesh m) = run mesh"
  by (simp add: mesh_detach_subs_def split: option.splits)

lemma run_fold_update [simp]:
  "run (fold (\<lambda>sup. mesh_state_update sup (f sup)) sups mesh) = run mesh"
  by (induction sups arbitrary: mesh) simp_all

lemma run_mesh_state_delete [simp]: "run (mesh_state_delete mesh m) = run mesh"
  by (simp add: mesh_state_delete_def Let_def split: option.splits)

lemma run_mesh_query_done [simp]: "run (mesh_query_done mesh m) = run mesh"
  by (simp add: mesh_query_done_def split: option.splits)

lemma super_set_after_query_done:
  "mesh_area_find mesh m = Some st \<Longrightarrow>
     mesh_area_find (mesh_query_done mesh m) m = Some (st\<lparr>reply_list := []\<rparr>)"
  using mesh_area_find_update [of m "\<lambda>st. st\<lparr>reply_list := []\<rparr>" mesh m]
  by (simp add: mesh_query_done_def mesh_area_find_def)

lemma mesh_area_find_run [simp]: "mesh_area_find (mesh\<lparr>run := r\<rparr>) k = mesh_area_find mesh k"
  by (simp add: mesh_area_find_def)

lemma pending_of_run [simp]: "pending_of (mesh\<lparr>run := r\<rparr>) k = pending_of mesh k"
  by (simp add: pending_of_def)

lemma pending_of_counters [simp]:
  "pending_of (mesh\<lparr>num_detached_states := c\<rparr>) k = pending_of mesh k"
  "pending_of (mesh\<lparr>num_reply_states := c\<rparr>) k = pending_of mesh k"
  "pending_of (mesh\<lparr>num_reply_addrs := c\<rparr>) k = pending_of mesh k"
  "pending_of (mesh\<lparr>replies_sent := c\<rparr>) k = pending_of mesh k"
  by (simp_all add: pending_of_def mesh_area_find_def)

lemma pending_of_update:
  "pending_of (mesh_state_update k f mesh) k' =
     (if k' = k then map_option (\<lambda>st. pending_event (f st)) (mesh_area_find mesh k)
      else pending_of mesh k')"
  by (simp add: pending_of_def option.map_comp o_def)

lemma pending_of_update_frame:
  "(\<And>st. pending_event (f st) = pending_event st) \<Longrightarrow>
     pending_of (mesh_state_update k f mesh) k' = pending_of mesh k'"
  by (simp add: pending_of_update) (simp add: pending_of_def)

lemma pending_of_detach_one [simp]: "pending_of (detach_one m sub mesh) k = pending_of mesh k"
  by (simp add: detach_one_def pending_of_update_frame split: option.splits)

lemma pending_of_fold_detach_one [simp]:
  "pending_of (fold (detach_one m) subs mesh) k = pending_of mesh k"
  by (induction subs arbitrary: mesh) simp_all

lemma pending_of_mesh_detach_subs [simp]:
  "pending_of (mesh_detach_subs mesh m) k = pending_of mesh k"
  by (simp add: mesh_detach_subs_def pending_of_update_frame split: option.splits)

lemma pending_of_fold_sub_set [simp]:
  "pending_of (fold (\<lambda>sup. mesh_state_update sup (\<lambda>st. st\<lparr>sub_set := g sup st\<rparr>)) sups mesh) k =
     pending_of mesh k"
  by (induction sups arbitrary: mesh) (simp_all add: pending_of_update_frame)

lemma map_of_filter_other:
  "k \<noteq> m \<Longrightarrow> map_of (filter (\<lambda>(k', st). k' \<noteq> m) al) k = map_of al k"
  by (induction al) auto

lemma pending_of_mesh_state_delete:
  "k \<noteq> m \<Longrightarrow> pending_of (mesh_state_delete mesh m) k = pending_of mesh k"
proof -
  assume km: "k \<noteq> m"
  have f: "pending_of (mesh'\<lparr>all := filter (\<lambda>(k', st). k' \<noteq> m) (all mesh')\<rparr>) k = pending_of mesh' k"
    for mesh'
    using km by (simp add: pending_of_def mesh_area_find_def map_of_filter_other)
  show ?thesis
    by (simp add: mesh_state_delete_def Let_def f split: option.splits)
qed

lemma pending_of_mesh_query_done [simp]:
  "pending_of (mesh_query_done mesh m) k = pending_of mesh k"
  by (simp add: mesh_query_done_def pending_of_update_frame split: option.splits)

lemma run_fold_mark:
  "run (fold (\<lambda>sup mesh1. (mesh_state_update sup (f sup) mesh1)\<lparr>run := rbtree_insert sup (run mesh1)\<rparr>)
          sups mesh) = fold rbtree_insert sups (run mesh)"
  by (induction sups arbitrary: mesh) simp_all

lemma pending_of_fold_mark:
  "pending_of (fold (\<lambda>sup mesh1.
        (mesh_state_update sup (\<lambda>ss. ss\<lparr>pending_event := ev\<rparr>) mesh1)
          \<lparr>run := rbtree_insert sup (run mesh1)\<rparr>) sups mesh) k =
     (if k \<in> set sups then map_option (\<lambda>_. ev) (pending_of mesh k) else pending_of mesh k)"
proof (induction sups arbitrary: mesh)
  case Nil
  show ?case by simp
next
  case (Cons x xs)
  show ?case
    by (simp add: Cons.IH pending_of_update) (simp add: pending_of_def option.map_comp o_def)
qed

lemma run_after_completion:
  assumes "mesh_area_find mesh m = Some st" "s = module_finished \<or> s = module_error"
  shows "run (mesh_continue mesh m s) = fold rbtree_insert (super_set st) (run mesh)"
  using assms super_set_after_query_done [OF assms(1)]
  by (auto simp add: mesh_continue_def mesh_walk_supers_def run_fold_mark)

lemma pending_after_completion:
  assumes "mesh_area_find mesh m = Some st" "s = module_finished \<or> s = module_error"
    "k \<in> set (super_set st)" "k \<noteq> m"
  shows "pending_of (mesh_continue mesh m s) k =
           map_option (\<lambda>_. module_event_moddone) (pending_of mesh k)"
  using assms super_set_after_query_done [OF assms(1)]
  by (auto simp add: mesh_continue_def mesh_walk_supers_def pending_of_mesh_state_delete
      pending_of_fold_mark)


lemma insort_last: "\<forall>a \<in> set acc. a < x \<Longrightarrow> insort x acc = acc @ [x]"
  for x :: nat
  by (induction acc) auto

lemma fold_rbtree_insert_sorted:
  "sorted_wrt (<) (acc @ xs) \<Longrightarrow> fold rbtree_insert xs acc = acc @ xs"
proof (induction xs arbitrary: acc)
  case Nil
  show ?case by simp
next
  case (Cons x xs)
  have lt: "\<forall>a \<in> set acc. a < x"
    using Cons.prems by (auto simp: sorted_wrt_append)
  then have "x \<notin> set acc" by auto
  then have i: "rbtree_insert x acc = acc @ [x]"
    using lt by (simp add: rbtree_insert_def insort_last)
  show ?case
    using Cons.IH [of "acc @ [x]"] Cons.prems by (simp add: i)
qed

lemma set_fold_rbtree_insert: "set (fold rbtree_insert xs acc) = set acc \<union> set xs"
  by (induction xs arbitrary: acc) auto

lemma mesh_continue_wait [simp]: "mesh_continue mesh m module_wait = mesh"
  by (simp add: mesh_continue_def)

lemma run_mesh_waiting:
  assumes "run mesh = ks" "distinct ks"
    and "\<forall>k \<in> set ks. \<exists>ev. pending_of mesh k = Some ev"
    and "\<forall>k \<in> set ks. \<forall>m' e. operate m' k e = (module_wait, m')"
  shows "map_option fst (run_mesh operate (Suc (length ks)) mesh) =
           Some (map (\<lambda>k. (k, the (pending_of mesh k))) ks)"
  using assms
proof (induction ks arbitrary: mesh)
  case Nil
  then show ?case by simp
next
  case (Cons k ks)
  obtain st where f: "mesh_area_find mesh k = Some st"
    using Cons.prems(3) by (auto simp: pending_of_def)
  let ?m1 = "mesh_state_update k (\<lambda>st. st\<lparr>pending_event := module_event_pass\<rparr>) (mesh\<lparr>run := ks\<rparr>)"
  have w: "operate (mesh\<lparr>run := ks\<rparr>) k (pending_event st) = (module_wait, mesh\<lparr>run := ks\<rparr>)"
    using Cons.prems(4) by simp
  have p: "pending_of ?m1 k' = pending_of mesh k'" if "k' \<in> set ks" for k'
    using that Cons.prems(2) by (auto simp add: pending_of_update)
  have ih: "map_option fst (run_mesh operate (Suc (length ks)) ?m1) =
           Some (map (\<lambda>k. (k, the (pending_of ?m1 k))) ks)"
    using Cons.prems p by (intro Cons.IH) auto
  have e: "map (\<lambda>k. (k, the (pending_of ?m1 k))) ks = map (\<lambda>k. (k, the (pending_of mesh k))) ks"
    using p by simp
  have step: "run_mesh operate (Suc (Suc (length ks))) mesh =
      (case run_mesh operate (Suc (length ks)) ?m1 of
         None \<Rightarrow> None
       | Some (tr, mesh2) \<Rightarrow> Some ((k, pending_event st) # tr, mesh2))"
    using Cons.prems(1) f w
    by (subst run_mesh.simps(2)) (simp del: run_mesh.simps)
  have pk: "the (pending_of mesh k) = pending_event st"
    using f by (simp add: pending_of_def)
  from ih obtain tr mesh2 where
    r2: "run_mesh operate (Suc (length ks)) ?m1 = Some (tr, mesh2)"
    and tr: "tr = map (\<lambda>k. (k, the (pending_of mesh k))) ks"
    unfolding e
    by (cases "run_mesh operate (Suc (length ks)) ?m1") (auto simp del: run_mesh.simps)
  show ?case
    by (simp add: step r2 tr pk del: run_mesh.simps)
qed

lemma run_mesh_fanout:
  assumes f: "mesh_area_find mesh m = Some st" and s: "s = module_finished \<or> s = module_error"
    and r: "run mesh = [m]" and o: "sorted_wrt (<) (super_set st)" and n: "m \<notin> set (super_set st)"
    and ex: "\<forall>k \<in> set (super_set st). mesh_area_find mesh k \<noteq> None"
    and fin: "\<forall>m' e. operate m' m e = (s, m')"
    and wait: "\<forall>k m' e. k \<noteq> m \<longrightarrow> operate m' k e = (module_wait, m')"
  shows "map_option fst (run_mesh operate (length (super_set st) + 2) mesh) =
           Some ((m, pending_event st) # map (\<lambda>k. (k, module_event_moddone)) (super_set st))"
proof -
  let ?m1 = "mesh_state_update m (\<lambda>st. st\<lparr>pending_event := module_event_pass\<rparr>) (mesh\<lparr>run := []\<rparr>)"
  let ?st1 = "st\<lparr>pending_event := module_event_pass\<rparr>"
  let ?mc = "mesh_continue ?m1 m s"
  have f1: "mesh_area_find ?m1 m = Some ?st1"
    using f by simp
  have rc: "run ?mc = super_set st"
    using run_after_completion [OF f1 s] fold_rbtree_insert_sorted [of "[]" "super_set st"] o
    by simp
  have pc: "pending_of ?mc k = Some module_event_moddone" if kin: "k \<in> set (super_set st)" for k
  proof -
    have km: "k \<noteq> m" using kin n by auto
    obtain sk where "mesh_area_find mesh k = Some sk"
      using ex kin by auto
    then have "pending_of ?m1 k = Some (pending_event sk)"
      using km by (simp add: pending_of_def)
    then show ?thesis
      using pending_after_completion [OF f1 s _ km] kin by simp
  qed
  have d: "distinct (super_set st)"
    using o by (simp add: strict_sorted_iff)
  have w: "\<forall>k \<in> set (super_set st). \<forall>m' e. operate m' k e = (module_wait, m')"
    using wait n by auto
  have t: "map_option fst (run_mesh operate (Suc (length (super_set st))) ?mc) =
      Some (map (\<lambda>k. (k, the (pending_of ?mc k))) (super_set st))"
    using pc by (intro run_mesh_waiting [OF rc d _ w]) simp
  have e: "map (\<lambda>k. (k, the (pending_of ?mc k))) (super_set st) =
      map (\<lambda>k. (k, module_event_moddone)) (super_set st)"
    using pc by simp
  have op: "operate (mesh\<lparr>run := []\<rparr>) m (pending_event st) = (s, mesh\<lparr>run := []\<rparr>)"
    using fin by simp
  have step: "run_mesh operate (Suc (Suc (length (super_set st)))) mesh =
      (case run_mesh operate (Suc (length (super_set st))) ?mc of
         None \<Rightarrow> None
       | Some (tr, mesh2) \<Rightarrow> Some ((m, pending_event st) # tr, mesh2))"
    using r f op
    by (subst run_mesh.simps(2)) (simp del: run_mesh.simps)
  from t obtain tr mesh2 where
    r2: "run_mesh operate (Suc (length (super_set st))) ?mc = Some (tr, mesh2)"
    and tr: "tr = map (\<lambda>k. (k, module_event_moddone)) (super_set st)"
    unfolding e
    by (cases "run_mesh operate (Suc (length (super_set st))) ?mc")
       (auto simp del: run_mesh.simps)
  show ?thesis
    by (simp add: step r2 tr del: run_mesh.simps)
qed

text \<open>
  Claim C2. When a mesh state completes (its module returns \<^verbatim>\<open>module_finished\<close> or
  \<^verbatim>\<open>module_error\<close>), every state of its super-set is inserted into the run set, in the
  iteration order of the super-set, and the run set holds nothing else new; the pending
  event of every super that is a state of the mesh is then \<^verbatim>\<open>module_event_moddone\<close>. When
  only the completing state is runnable and its supers wait, the scheduler runs the supers
  next, in the iteration order of the super-set, each with \<^verbatim>\<open>module_event_moddone\<close>.
\<close>

theorem supers_scheduled_with_moddone:
  assumes "mesh_area_find mesh m = Some st" and "s = module_finished \<or> s = module_error"
  shows "run (mesh_continue mesh m s) = fold rbtree_insert (super_set st) (run mesh)
    \<and> set (run (mesh_continue mesh m s)) = set (run mesh) \<union> set (super_set st)
    \<and> (\<forall>k \<in> set (super_set st). k \<noteq> m \<longrightarrow>
          pending_of (mesh_continue mesh m s) k =
            map_option (\<lambda>ev. module_event_moddone) (pending_of mesh k))
    \<and> (run mesh = [m] \<and> sorted_wrt (<) (super_set st) \<and> m \<notin> set (super_set st)
          \<and> (\<forall>k \<in> set (super_set st). mesh_area_find mesh k \<noteq> None)
          \<and> (\<forall>m' e. operate m' m e = (s, m'))
          \<and> (\<forall>k m' e. k \<noteq> m \<longrightarrow> operate m' k e = (module_wait, m')) \<longrightarrow>
          map_option fst (run_mesh operate (length (super_set st) + 2) mesh) =
            Some ((m, pending_event st) #
                  map (\<lambda>k. (k, module_event_moddone)) (super_set st)))"
proof -
  have a: "run (mesh_continue mesh m s) = fold rbtree_insert (super_set st) (run mesh)"
    using assms by (rule run_after_completion)
  have b: "set (run (mesh_continue mesh m s)) = set (run mesh) \<union> set (super_set st)"
    unfolding a by (rule set_fold_rbtree_insert)
  have c: "pending_of (mesh_continue mesh m s) k =
            map_option (\<lambda>ev. module_event_moddone) (pending_of mesh k)"
    if "k \<in> set (super_set st)" "k \<noteq> m" for k
    using pending_after_completion [OF assms that] .
  have d: "map_option fst (run_mesh operate (length (super_set st) + 2) mesh) =
            Some ((m, pending_event st) # map (\<lambda>k. (k, module_event_moddone)) (super_set st))"
    if "run mesh = [m]" "sorted_wrt (<) (super_set st)" "m \<notin> set (super_set st)"
      "\<forall>k \<in> set (super_set st). mesh_area_find mesh k \<noteq> None"
      "\<forall>m' e. operate m' m e = (s, m')"
      "\<forall>k m' e. k \<noteq> m \<longrightarrow> operate m' k e = (module_wait, m')"
    using run_mesh_fanout [OF assms that] .
  from a b c d show ?thesis by blast
qed

text \<open>
  The spec's scenario "super fan-out": 3 finishes, its supers 1 and 2 are both in the
  run set with the pending event \<^verbatim>\<open>module_event_moddone\<close>, and the scheduler runs them with
  it, 1 before 2.
\<close>

theorem supers_scheduled_with_moddone_witness:
  "run (mesh_continue (fanout_mesh\<lparr>run := []\<rparr>) 3 module_finished) = [1, 2]
   \<and> pending_of (mesh_continue (fanout_mesh\<lparr>run := []\<rparr>) 3 module_finished) 1
       = Some module_event_moddone
   \<and> pending_of (mesh_continue (fanout_mesh\<lparr>run := []\<rparr>) 3 module_finished) 2
       = Some module_event_moddone
   \<and> map_option fst (run_mesh fanout_operate 4 fanout_mesh) =
     Some [(3, module_event_new), (1, module_event_moddone), (2, module_event_moddone)]"
proof -
  let ?st = "\<lparr>curmod = 0, pending_event = module_event_new, reply_list = [],
               super_set = [1, 2], sub_set = []\<rparr> :: mesh_state"
  have f: "mesh_area_find fanout_mesh 3 = Some ?st"
    "mesh_area_find (fanout_mesh\<lparr>run := []\<rparr>) 3 = Some ?st"
    by (simp_all add: mesh_area_find_def fanout_mesh_def)
  have s: "module_finished = module_finished \<or> module_finished = module_error"
    by simp
  have h: "run fanout_mesh = [3]" "sorted_wrt (<) (super_set ?st)" "3 \<notin> set (super_set ?st)"
    "\<forall>k \<in> set (super_set ?st). mesh_area_find fanout_mesh k \<noteq> None"
    "\<forall>m' e. fanout_operate m' 3 e = (module_finished, m')"
    "\<forall>k m' e. k \<noteq> 3 \<longrightarrow> fanout_operate m' k e = (module_wait, m')"
    by (simp_all add: fanout_mesh_def fanout_operate_def mesh_area_find_def)
  have p: "pending_of (fanout_mesh\<lparr>run := []\<rparr>) 1 = Some module_event_pass"
    "pending_of (fanout_mesh\<lparr>run := []\<rparr>) 2 = Some module_event_pass"
    by (simp_all add: pending_of_def mesh_area_find_def fanout_mesh_def)
  have r: "run (mesh_continue (fanout_mesh\<lparr>run := []\<rparr>) 3 module_finished) = [1, 2]"
    "pending_of (mesh_continue (fanout_mesh\<lparr>run := []\<rparr>) 3 module_finished) 1
       = Some module_event_moddone"
    "pending_of (mesh_continue (fanout_mesh\<lparr>run := []\<rparr>) 3 module_finished) 2
       = Some module_event_moddone"
    using supers_scheduled_with_moddone [OF f(2) s] p
    by (simp_all add: rbtree_insert_def)
  have "map_option fst (run_mesh fanout_operate (length (super_set ?st) + 2) fanout_mesh) =
        Some ((3, pending_event ?st) # map (\<lambda>k. (k, module_event_moddone)) (super_set ?st))"
    using supers_scheduled_with_moddone [OF f(1) s, where operate = fanout_operate] h
    by blast
  then have t: "map_option fst (run_mesh fanout_operate 4 fanout_mesh) =
     Some [(3, module_event_new), (1, module_event_moddone), (2, module_event_moddone)]"
    by (simp add: eval_nat_numeral)
  from r t show ?thesis by blast
qed

end
